theory Spec2Isabelle
  imports Complex_Main "HOL-Library.Sublist"
begin

section \<open>Exceptions and the retry policy (utils.py)\<close>

text \<open>
  The exceptions the pipeline distinguishes.  \<open>call_view_function\<close> has one handler for
  web3's \<open>ContractLogicError\<close>, one for its base class \<open>Web3Exception\<close> and one for every
  other \<open>Exception\<close>; the remaining constructors are the builtin exceptions that the
  repository's own code can raise.  Each carries the text that \<open>str(e)\<close> gives.
  Only subclasses of \<open>Exception\<close> are modelled: task cancellation and interpreter exit
  are outside the model.
\<close>

datatype exn =
    ContractLogicError string
  | Web3Exception string
  | KeyError string
  | OverflowError string
  | ZeroDivisionError string
  | IndexError string
  | TypeError string
  | JSONDecodeError string
  | OtherException string

fun str_exn :: "exn \<Rightarrow> string" where
  "str_exn (ContractLogicError s) = s"
| "str_exn (Web3Exception s) = s"
| "str_exn (KeyError s) = s"
| "str_exn (OverflowError s) = s"
| "str_exn (ZeroDivisionError s) = s"
| "str_exn (IndexError s) = s"
| "str_exn (TypeError s) = s"
| "str_exn (JSONDecodeError s) = s"
| "str_exn (OtherException s) = s"

text \<open>
  What one run of \<open>retry_with_backoff\<close> does, in order: the calls of \<open>func\<close> (numbered by
  the loop variable \<open>attempt\<close>) and the sleeps between them.  Delays are Python floats in
  the source; they are idealised as reals here.
\<close>

datatype retry_event = Attempt nat | Sleep real

text \<open>
  \<open>raise last_exception\<close>: when the loop body never ran, \<open>last_exception\<close> is still
  \<open>None\<close> and Python raises a \<open>TypeError\<close> instead.
\<close>

definition reraise :: "exn option \<Rightarrow> exn" where
  "reraise last_exception =
     (case last_exception of
        None \<Rightarrow> TypeError ''exceptions must derive from BaseException''
      | Some e \<Rightarrow> e)"

text \<open>
  The loop \<open>for attempt in range(max_retries + 1)\<close>.  The operation \<open>func\<close> may answer
  differently each time it is called, so it is given as the answer to each attempt:
  \<open>func k\<close> is what the call made in iteration \<open>k\<close> returns (\<open>Inr\<close>) or raises (\<open>Inl\<close>).
\<close>

function retry_loop ::
  "(nat \<Rightarrow> exn + 'a) \<Rightarrow> int \<Rightarrow> real \<Rightarrow> real \<Rightarrow> nat \<Rightarrow> exn option
     \<Rightarrow> retry_event list \<times> (exn + 'a)" where
  "retry_loop func max_retries base_delay backoff_factor attempt last_exception =
     (if int attempt < max_retries + 1 then
        (case func attempt of
           Inr v \<Rightarrow> ([Attempt attempt], Inr v)
         | Inl e \<Rightarrow>
             if int attempt = max_retries then ([Attempt attempt], Inl (reraise (Some e)))
             else
               (let delay = base_delay * backoff_factor ^ attempt;
                    rest = retry_loop func max_retries base_delay backoff_factor
                             (Suc attempt) (Some e)
                in (Attempt attempt # Sleep delay # fst rest, snd rest)))
      else ([], Inl (reraise last_exception)))"
  by pat_completeness auto
termination
  by (relation "measure (\<lambda>(func, max_retries, base_delay, backoff_factor, attempt, last).
        nat (max_retries + 1 - int attempt))") auto

declare retry_loop.simps [simp del]

definition retry_with_backoff ::
  "(nat \<Rightarrow> exn + 'a) \<Rightarrow> int \<Rightarrow> real \<Rightarrow> real \<Rightarrow> retry_event list \<times> (exn + 'a)" where
  "retry_with_backoff func max_retries base_delay backoff_factor =
     retry_loop func max_retries base_delay backoff_factor 0 None"

text \<open>Every caller in the repository passes \<open>max_retries\<close> only and keeps the defaults
  \<open>base_delay = 1.0\<close>, \<open>backoff_factor = 2.0\<close>.\<close>

definition retry_default :: "(nat \<Rightarrow> exn + 'a) \<Rightarrow> int \<Rightarrow> retry_event list \<times> (exn + 'a)" where
  "retry_default func max_retries = retry_with_backoff func max_retries 1 2"

text \<open>The events of a run that fails at attempts \<open>a, ..., k - 1\<close> and sleeps after each.\<close>

definition failed_rounds :: "real \<Rightarrow> real \<Rightarrow> nat \<Rightarrow> nat \<Rightarrow> retry_event list" where
  "failed_rounds base_delay backoff_factor a k =
     concat (map (\<lambda>i. [Attempt i, Sleep (base_delay * backoff_factor ^ i)]) [a..<k])"

section \<open>Addresses (utils.py)\<close>

text \<open>
  A Python \<open>str\<close> is modelled as a \<open>string\<close> whose characters are read as code points
  below 256.  The character class \<open>[a-fA-F0-9]\<close> of the pattern:
\<close>

definition is_hex_char :: "char \<Rightarrow> bool" where
  "is_hex_char c = (c \<in> set ''abcdefABCDEF0123456789'')"

text \<open>
  \<open>re.match(r'^0x[a-fA-F0-9]{40}$', address)\<close>.  The pattern is compiled without flags:
  \<open>^\<close> is the start of the string, and \<open>$\<close> matches at the end of the string and also
  just before a newline that is the last character of the string.
\<close>

definition re_match_address :: "string \<Rightarrow> bool" where
  "re_match_address s =
     (take 2 s = ''0x''
      \<and> length (take 40 (drop 2 s)) = 40
      \<and> list_all is_hex_char (take 40 (drop 2 s))
      \<and> (drop 42 s = [] \<or> drop 42 s = [CHR 0x0A]))"

definition is_valid_ethereum_address :: "string \<Rightarrow> bool" where
  "is_valid_ethereum_address address =
     (if address = [] then False
      else if \<not> re_match_address address then False
      else True)"

text \<open>
  \<open>to_checksum_address\<close> wraps \<open>Web3.to_checksum_address\<close> of the web3 library, which is
  not part of the repository: it is the parameter \<open>web3_to_checksum\<close>, returning the
  checksummed address or raising.
\<close>

definition to_checksum_address :: "(string \<Rightarrow> exn + string) \<Rightarrow> string \<Rightarrow> string" where
  "to_checksum_address web3_to_checksum address =
     (case web3_to_checksum address of
        Inr checksummed \<Rightarrow> checksummed
      | Inl e \<Rightarrow> address)"

text \<open>The address syntax as the specification words it: exactly \<open>0x\<close> followed by 40
  hexadecimal characters of either case.\<close>

definition address_syntax :: "string \<Rightarrow> bool" where
  "address_syntax s = (length s = 42 \<and> take 2 s = ''0x'' \<and> list_all is_hex_char (drop 2 s))"

definition upper_hex :: "char \<Rightarrow> char" where
  "upper_hex c =
     (if c = CHR ''a'' then CHR ''A'' else if c = CHR ''b'' then CHR ''B''
      else if c = CHR ''c'' then CHR ''C'' else if c = CHR ''d'' then CHR ''D''
      else if c = CHR ''e'' then CHR ''E'' else if c = CHR ''f'' then CHR ''F'' else c)"

definition lower_hex :: "char \<Rightarrow> char" where
  "lower_hex c =
     (if c = CHR ''A'' then CHR ''a'' else if c = CHR ''B'' then CHR ''b''
      else if c = CHR ''C'' then CHR ''c'' else if c = CHR ''D'' then CHR ''d''
      else if c = CHR ''E'' then CHR ''e'' else if c = CHR ''F'' then CHR ''f'' else c)"

text \<open>
  Modelled from the spec: \<open>Web3.to_checksum_address\<close>, a function of the web3 library that
  is not under src/.  The specification gives its algorithm (EIP-55): hash the lowercase
  hexadecimal body, and write each hexadecimal digit in upper case if the corresponding
  nibble of the hash exceeds 7; input that is not an address makes it fail.  The hash
  (Keccak-256, as a list of nibbles) is the parameter \<open>hash_nibbles\<close>.
\<close>

definition checksum_case :: "string \<Rightarrow> nat list \<Rightarrow> string" where
  "checksum_case body nibbles =
     map (\<lambda>(c, nibble). if 7 < nibble then upper_hex c else c) (zip body nibbles)"

definition eip55_checksum :: "(string \<Rightarrow> nat list) \<Rightarrow> string \<Rightarrow> exn + string" where
  "eip55_checksum hash_nibbles s =
     (if address_syntax s then
        (let body = map lower_hex (drop 2 s)
         in Inr (''0x'' @ checksum_case body (hash_nibbles body)))
      else Inl (OtherException ''not an address''))"

section \<open>The ABI filter (utils.py)\<close>

text \<open>
  An ABI is the list of dictionaries decoded from the metadata service's JSON.  The
  dictionaries are modelled by the keys the code reads; a key may be missing (\<open>None\<close>,
  what \<open>item.get\<close> answers without a default), and a key that is present holds a value of
  the type the ABI JSON format gives it.
\<close>

record abi_param =
  param_type :: "string option"

record abi_entry =
  entry_type :: "string option"
  entry_name :: "string option"
  entry_stateMutability :: "string option"
  entry_inputs :: "abi_param list option"
  entry_outputs :: "abi_param list option"

text \<open>\<open>d.get(key, [])\<close> on a list-valued key.\<close>

definition get_list :: "'a list option \<Rightarrow> 'a list" where
  "get_list v = (case v of None \<Rightarrow> [] | Some xs \<Rightarrow> xs)"

fun extract_view_functions :: "abi_entry list \<Rightarrow> abi_entry list" where
  "extract_view_functions [] = []"
| "extract_view_functions (item # abi) =
     (if entry_type item = Some ''function''
         \<and> entry_stateMutability item \<in> set [Some ''view'', Some ''pure'']
         \<and> length (get_list (entry_inputs item)) = 0
      then item # extract_view_functions abi
      else extract_view_functions abi)"

text \<open>The selection predicate as the specification words it, for comparison.\<close>

definition invocable :: "abi_entry \<Rightarrow> bool" where
  "invocable item =
     (entry_type item = Some ''function''
      \<and> (entry_stateMutability item = Some ''view'' \<or> entry_stateMutability item = Some ''pure'')
      \<and> (entry_inputs item = None \<or> entry_inputs item = Some []))"

section \<open>Numbers as text\<close>

text \<open>\<open>str\<close> of a Python integer: decimal digits, with a minus sign when negative.\<close>

definition digit_char :: "int \<Rightarrow> char" where
  "digit_char d = ''0123456789'' ! nat d"

function str_digits :: "int \<Rightarrow> string" where
  "str_digits n = (if n < 10 then [digit_char n]
                   else str_digits (n div 10) @ [digit_char (n mod 10)])"
  by pat_completeness auto
termination
  by (relation "measure nat") auto

declare str_digits.simps [simp del]

definition str_int :: "int \<Rightarrow> string" where
  "str_int i = (if i < 0 then CHR ''-'' # str_digits (- i) else str_digits i)"

text \<open>
  Python's \<open>/\<close> on two integers gives the IEEE 754 double nearest to the exact quotient
  (ties to the even significand), or raises \<open>OverflowError\<close> when that is beyond the
  largest double.  A non-negative double is represented exactly, as a pair \<open>(m, e)\<close> that
  stands for \<open>m * 2 ^ e\<close> with \<open>0 \<le> m \<le> 2 ^ 53\<close> and \<open>e \<ge> - 1074\<close>.  Only a non-negative
  dividend and a positive divisor are modelled: the only divisions in the source have a
  dividend of at least \<open>10 ^ 12\<close> and a positive literal divisor.
\<close>

text \<open>\<open>n / d\<close> rounded to the nearest integer, ties to even (for \<open>0 \<le> n\<close> and \<open>0 < d\<close>).\<close>

definition round_half_even :: "int \<Rightarrow> int \<Rightarrow> int" where
  "round_half_even n d =
     (let q = n div d; r = n mod d
      in if 2 * r < d then q
         else if d < 2 * r then q + 1
         else if even q then q else q + 1)"

text \<open>\<open>int.bit_length\<close> of a non-negative integer.\<close>

function bit_length :: "int \<Rightarrow> nat" where
  "bit_length n = (if n \<le> 0 then 0 else Suc (bit_length (n div 2)))"
  by pat_completeness auto
termination
  by (relation "measure nat") auto

declare bit_length.simps [simp del]

text \<open>Whether \<open>2 ^ d \<le> a / b\<close>, for an integer \<open>d\<close> of either sign.\<close>

definition quotient_ge_pow2 :: "int \<Rightarrow> int \<Rightarrow> int \<Rightarrow> bool" where
  "quotient_ge_pow2 a b d =
     (if 0 \<le> d then b * 2 ^ nat d \<le> a else b \<le> a * 2 ^ nat (- d))"

definition int_true_divide :: "int \<Rightarrow> int \<Rightarrow> exn + int \<times> int" where
  "int_true_divide a b =
     (if b = 0 then Inl (ZeroDivisionError ''division by zero'')
      else
        (let d = int (bit_length a) - int (bit_length b);
             floor_log2 = (if quotient_ge_pow2 a b d then d else d - 1);
             e = max (floor_log2 - 52) (- 1074);
             m = (if 0 \<le> e then round_half_even a (b * 2 ^ nat e)
                  else round_half_even (a * 2 ^ nat (- e)) b)
         in if 0 \<le> e \<and> 2 ^ 1024 \<le> m * 2 ^ nat e
            then Inl (OverflowError ''integer division result too large for a float'')
            else Inr (m, e)))"

text \<open>
  The format specification \<open>.6f\<close> applied to a double: its exact value rounded to six
  decimals (ties to even), written with all digits of the integer part and exactly six
  digits after the point.
\<close>

definition pad6 :: "int \<Rightarrow> string" where
  "pad6 k = replicate (6 - length (str_digits k)) (CHR ''0'') @ str_digits k"

definition format_6f :: "int \<times> int \<Rightarrow> string" where
  "format_6f x =
     (let m = fst x; e = snd x;
          n = (if 0 \<le> e then m * 2 ^ nat e * 10 ^ 6
               else round_half_even (m * 10 ^ 6) (2 ^ nat (- e)))
      in str_digits (n div 10 ^ 6) @ ''.'' @ pad6 (n mod 10 ^ 6))"

text \<open>The f-string \<open>f"{value / divisor:.6f} unit"\<close>.\<close>

definition scaled :: "int \<Rightarrow> int \<Rightarrow> string \<Rightarrow> exn + string" where
  "scaled v divisor unit =
     (case int_true_divide v divisor of
        Inl e \<Rightarrow> Inl e
      | Inr x \<Rightarrow> Inr (format_6f x @ '' '' @ unit))"

section \<open>Result classification (contract_analyzer.py)\<close>

definition format_large_number :: "int \<Rightarrow> exn + string" where
  "format_large_number v =
     (if 10 ^ 18 \<le> v then scaled v (10 ^ 18) ''Ether''
      else if 10 ^ 15 \<le> v then scaled v (10 ^ 15) ''milli-Ether''
      else if 10 ^ 12 \<le> v then scaled v (10 ^ 12) ''micro-Ether''
      else Inr (str_int v))"

definition get_output_type :: "abi_entry \<Rightarrow> string" where
  "get_output_type func_info =
     (let outputs = get_list (entry_outputs func_info)
      in if outputs = [] then ''void''
         else if length outputs = 1 then
           (case param_type (outputs ! 0) of None \<Rightarrow> ''unknown'' | Some t \<Rightarrow> t)
         else ''tuple'')"

section \<open>The chain client (web3_client.py)\<close>

text \<open>
  A decoded return value.  The code only asks whether a value is an \<open>int\<close> (Python's
  \<open>bool\<close> is a subclass of \<open>int\<close>), compares and divides integers, and takes \<open>str\<close> of a
  value; any other value (bytes, tuple, list) is represented by its \<open>str\<close> text.
\<close>

datatype pyval = PNone | PInt int | PBool bool | PStr string | PObj string

definition is_int :: "pyval \<Rightarrow> bool" where
  "is_int v = (case v of PInt i \<Rightarrow> True | PBool b \<Rightarrow> True | _ \<Rightarrow> False)"

definition int_value :: "pyval \<Rightarrow> int" where
  "int_value v = (case v of PInt i \<Rightarrow> i | PBool b \<Rightarrow> (if b then 1 else 0) | _ \<Rightarrow> 0)"

definition py_str :: "pyval \<Rightarrow> string" where
  "py_str v =
     (case v of
        PNone \<Rightarrow> ''None''
      | PInt i \<Rightarrow> str_int i
      | PBool b \<Rightarrow> (if b then ''True'' else ''False'')
      | PStr s \<Rightarrow> s
      | PObj s \<Rightarrow> s)"

text \<open>
  The texts of the reports.  The source writes them in Chinese; each constructor is one
  message template of the source and carries the values the template interpolates:
  analyzer initialisation failed; invalid Ethereum address format (the address); the
  address is not a contract address; the ABI cannot be fetched, the contract may be
  unverified; no zero-argument view function found; creating the contract instance
  failed; the function does not exist (its name); contract logic error, Web3 error and
  unknown error (each with \<open>str(e)\<close>); call exception (with \<open>str(result)\<close>); and the
  default "unknown error" of \<open>result.get("error", ...)\<close>.
\<close>

datatype message =
    AnalyzerInitFailed
  | InvalidAddressFormat string
  | NotAContractAddress string
  | AbiUnavailable
  | NoViewFunctionsFound
  | CreateInstanceFailed
  | FunctionNotExist string
  | ContractLogicErrorMsg string
  | Web3ErrorMsg string
  | UnknownErrorMsg string
  | CallExceptionMsg string
  | UnknownErrorDefault

text \<open>The dictionary that one invocation returns; a missing key is \<open>None\<close>.\<close>

record call_result =
  cr_function_name :: string
  cr_status :: string
  cr_result :: "pyval option"
  cr_error :: "message option"

record config =
  etherscan_api_key :: string
  chain_id :: int
  max_retries :: int

record params =
  param_module :: string
  param_action :: string
  param_address :: string
  param_apikey :: "string option"
  param_chainid :: "int option"

text \<open>
  What the pipeline does to the outside world, in order: attempts of an operation
  (numbered within their retry loop), sleeps, and acquisitions of a rate-limiter slot.
\<close>

datatype operation =
    IsConnected
  | GetCode string
  | EthContract string
  | ContractCall string
  | RequestsGet params

datatype event = Try operation nat | Wait real | ThrottleAcquire

fun tag :: "operation \<Rightarrow> retry_event \<Rightarrow> event" where
  "tag oper (Attempt k) = Try oper k"
| "tag oper (Sleep d) = Wait d"

text \<open>
  A contract handle, seen through \<open>getattr(contract.functions, function_name, None)\<close>:
  the lookup raises, finds nothing, or finds a function, whose call
  \<open>func().call()\<close> answers per attempt.
\<close>

type_synonym contract_function = "nat \<Rightarrow> exn + pyval"
type_synonym contract = "string \<Rightarrow> exn + contract_function option"

text \<open>The three \<open>except\<close> clauses of \<open>call_view_function\<close>, tried in the source's order.\<close>

definition call_error :: "string \<Rightarrow> exn \<Rightarrow> call_result" where
  "call_error function_name e =
     \<lparr>cr_function_name = function_name, cr_status = ''error'', cr_result = None,
      cr_error = Some (case e of
                         ContractLogicError s \<Rightarrow> ContractLogicErrorMsg s
                       | Web3Exception s \<Rightarrow> Web3ErrorMsg s
                       | _ \<Rightarrow> UnknownErrorMsg (str_exn e))\<rparr>"

definition call_view_function :: "config \<Rightarrow> contract \<Rightarrow> string \<Rightarrow> event list \<times> call_result" where
  "call_view_function cfg contract function_name =
     (case contract function_name of
        Inl e \<Rightarrow> ([], call_error function_name e)
      | Inr None \<Rightarrow>
          ([], \<lparr>cr_function_name = function_name, cr_status = ''error'', cr_result = None,
                cr_error = Some (FunctionNotExist function_name)\<rparr>)
      | Inr (Some func) \<Rightarrow>
          (let run = retry_default func (max_retries cfg)
           in (map (tag (ContractCall function_name)) (fst run),
               case snd run of
                 Inr result \<Rightarrow>
                   \<lparr>cr_function_name = function_name, cr_status = ''success'',
                    cr_result = Some result, cr_error = None\<rparr>
               | Inl e \<Rightarrow> call_error function_name e)))"

text \<open>
  \<open>asyncio.gather(*tasks, return_exceptions=True)\<close>: one entry per task, in the order of
  the tasks, an exception that escaped a task taking the place of its result.  The tasks
  run interleaved; their events are listed task by task.
\<close>

definition gather_calls ::
  "config \<Rightarrow> contract \<Rightarrow> string list \<Rightarrow> (event list \<times> (exn + call_result)) list" where
  "gather_calls cfg contract function_names =
     map (\<lambda>func_name. (fst (call_view_function cfg contract func_name),
                        Inr (snd (call_view_function cfg contract func_name))))
         function_names"

text \<open>The loop \<open>for i, result in enumerate(results)\<close>, from index \<open>i\<close> on.\<close>

fun process_gathered :: "string list \<Rightarrow> nat \<Rightarrow> (exn + call_result) list \<Rightarrow> call_result list" where
  "process_gathered function_names i [] = []"
| "process_gathered function_names i (result # results) =
     (case result of
        Inl e \<Rightarrow> \<lparr>cr_function_name = function_names ! i, cr_status = ''error'',
                  cr_result = None, cr_error = Some (CallExceptionMsg (str_exn e))\<rparr>
      | Inr r \<Rightarrow> r)
     # process_gathered function_names (Suc i) results"

definition batch_call_view_functions ::
  "config \<Rightarrow> contract \<Rightarrow> string list \<Rightarrow> event list \<times> call_result list" where
  "batch_call_view_functions cfg contract function_names =
     (let tasks = gather_calls cfg contract function_names
      in (concat (map fst tasks), process_gathered function_names 0 (map snd tasks)))"

text \<open>
  The outside world: what each external call answers at each attempt of a retry loop,
  the two library functions, and the clock.
\<close>

record source_info =
  si_SourceCode :: "string option"
  si_ABI :: "string option"
  si_ContractName :: "string option"

datatype result_value = ResultStr string | ResultList "source_info list"

record response =
  resp_status :: "string option"
  resp_message :: "string option"
  resp_result :: "result_value option"

datatype json_document = JsonList "abi_entry list" | JsonOther

record world =
  w_is_connected :: "nat \<Rightarrow> exn + bool"
  w_get_code :: "string \<Rightarrow> nat \<Rightarrow> exn + string"
  w_eth_contract :: "string \<Rightarrow> abi_entry list \<Rightarrow> nat \<Rightarrow> exn + contract"
  w_requests_get :: "params \<Rightarrow> nat \<Rightarrow> exn + response"
  w_json_loads :: "string \<Rightarrow> exn + json_document"
  w_to_checksum :: "string \<Rightarrow> exn + string"
  w_now :: string

record analyzer_state =
  initialized :: bool
  connection_verified :: bool

definition verify_connection :: "world \<Rightarrow> analyzer_state \<Rightarrow> event list \<times> analyzer_state \<times> bool" where
  "verify_connection w st =
     (let run = retry_default (w_is_connected w) 3
      in case snd run of
           Inr verified \<Rightarrow>
             (map (tag IsConnected) (fst run), st\<lparr>connection_verified := verified\<rparr>, verified)
         | Inl e \<Rightarrow> (map (tag IsConnected) (fst run), st, False))"

definition is_contract_address :: "config \<Rightarrow> world \<Rightarrow> string \<Rightarrow> event list \<times> bool" where
  "is_contract_address cfg w address =
     (let checksum_address = to_checksum_address (w_to_checksum w) address;
          get_code = (\<lambda>k. case w_get_code w checksum_address k of
                             Inl e \<Rightarrow> Inl e
                           | Inr code \<Rightarrow> Inr (0 < length code));
          run = retry_default get_code (max_retries cfg)
      in (map (tag (GetCode checksum_address)) (fst run),
          case snd run of Inr b \<Rightarrow> b | Inl e \<Rightarrow> False))"

definition get_contract_instance ::
  "config \<Rightarrow> world \<Rightarrow> string \<Rightarrow> abi_entry list \<Rightarrow> event list \<times> contract option" where
  "get_contract_instance cfg w address abi =
     (let checksum_address = to_checksum_address (w_to_checksum w) address;
          run = retry_default (w_eth_contract w checksum_address abi) (max_retries cfg)
      in (map (tag (EthContract checksum_address)) (fst run),
          case snd run of Inr c \<Rightarrow> Some c | Inl e \<Rightarrow> None))"

section \<open>The metadata client (etherscan_client.py)\<close>

text \<open>
  \<open>_make_request\<close>: the body of \<open>async with self.throttler\<close> runs after one slot of the
  rate limiter has been acquired; the body adds the API key and the chain identifier to
  the parameters and runs the HTTP GET under the retry policy.
\<close>

definition make_request :: "config \<Rightarrow> world \<Rightarrow> params \<Rightarrow> event list \<times> (exn + response)" where
  "make_request cfg w request_params =
     (let updated = request_params\<lparr>param_apikey := Some (etherscan_api_key cfg),
                                    param_chainid := Some (chain_id cfg)\<rparr>;
          run = retry_default (w_requests_get w updated) (max_retries cfg)
      in (ThrottleAcquire # map (tag (RequestsGet updated)) (fst run), snd run))"

text \<open>\<open>safe_json_loads\<close> catches \<open>JSONDecodeError\<close> and \<open>TypeError\<close> only.\<close>

definition safe_json_loads :: "world \<Rightarrow> string \<Rightarrow> exn + json_document option" where
  "safe_json_loads w data =
     (case w_json_loads w data of
        Inr doc \<Rightarrow> Inr (Some doc)
      | Inl (JSONDecodeError s) \<Rightarrow> Inr None
      | Inl (TypeError s) \<Rightarrow> Inr None
      | Inl e \<Rightarrow> Inl e)"

text \<open>
  \<open>get_contract_abi\<close>.  A \<open>result\<close> that is a list instead of a string makes
  \<open>json.loads\<close> raise \<open>TypeError\<close>, which \<open>safe_json_loads\<close> turns into \<open>None\<close>.
\<close>

definition get_contract_abi ::
  "config \<Rightarrow> world \<Rightarrow> string \<Rightarrow> event list \<times> abi_entry list option" where
  "get_contract_abi cfg w contract_address =
     (let request = make_request cfg w
            \<lparr>param_module = ''contract'', param_action = ''getabi'',
             param_address = contract_address, param_apikey = None, param_chainid = None\<rparr>
      in (fst request,
          case snd request of
            Inl e \<Rightarrow> None
          | Inr resp \<Rightarrow>
              if resp_status resp \<noteq> Some ''1'' then None
              else
                (case resp_result resp of
                   None \<Rightarrow> None
                 | Some (ResultList l) \<Rightarrow> None
                 | Some (ResultStr abi_string) \<Rightarrow>
                     if abi_string = [] then None
                     else
                       (case safe_json_loads w abi_string of
                          Inl e \<Rightarrow> None
                        | Inr None \<Rightarrow> None
                        | Inr (Some JsonOther) \<Rightarrow> None
                        | Inr (Some (JsonList abi)) \<Rightarrow> Some abi))))"

definition get_contract_source_code ::
  "config \<Rightarrow> world \<Rightarrow> string \<Rightarrow> event list \<times> source_info option" where
  "get_contract_source_code cfg w contract_address =
     (let request = make_request cfg w
            \<lparr>param_module = ''contract'', param_action = ''getsourcecode'',
             param_address = contract_address, param_apikey = None, param_chainid = None\<rparr>
      in (fst request,
          case snd request of
            Inl e \<Rightarrow> None
          | Inr resp \<Rightarrow>
              if resp_status resp \<noteq> Some ''1'' then None
              else
                (case resp_result resp of
                   None \<Rightarrow> None
                 | Some (ResultStr s) \<Rightarrow> None
                 | Some (ResultList []) \<Rightarrow> None
                 | Some (ResultList (first # others)) \<Rightarrow> Some first)))"

text \<open>\<open>str.strip()\<close>: the white space of Python among the code points below 256.\<close>

definition is_space :: "char \<Rightarrow> bool" where
  "is_space c = (c \<in> set [CHR 0x09, CHR 0x0A, CHR 0x0B, CHR 0x0C, CHR 0x0D, CHR 0x1C,
                           CHR 0x1D, CHR 0x1E, CHR 0x1F, CHR 0x20, CHR 0x85, CHR 0xA0])"

definition py_strip :: "string \<Rightarrow> string" where
  "py_strip s = rev (dropWhile is_space (rev (dropWhile is_space s)))"

text \<open>
  \<open>get_contract_name\<close>.  A source-info dictionary without any key is falsy in Python and
  gives \<open>None\<close> at the first test; with the keys modelled here it gives \<open>None\<close> at the
  second as well, its name being missing.
\<close>

definition get_contract_name :: "config \<Rightarrow> world \<Rightarrow> string \<Rightarrow> event list \<times> string option" where
  "get_contract_name cfg w contract_address =
     (let lookup = get_contract_source_code cfg w contract_address
      in (fst lookup,
          case snd lookup of
            None \<Rightarrow> None
          | Some info \<Rightarrow>
              (let name = py_strip (case si_ContractName info of None \<Rightarrow> [] | Some n \<Rightarrow> n)
               in if name = [] then None else Some name)))"

section \<open>The analyzer (contract_analyzer.py)\<close>

record formatted_result =
  fr_function_name :: string
  fr_result :: pyval
  fr_type :: string
  fr_status :: string
  fr_formatted_value :: "string option"
  fr_checksum_address :: "string option"

record failed_call =
  fc_function_name :: string
  fc_error :: message
  fc_status :: string

record analysis_summary =
  total_view_functions :: nat
  successful_calls :: nat
  failed_calls :: nat

text \<open>
  The report dictionary.  A field that is \<open>None\<close> stands for a key that the report does
  not have or, in the success report, for a key whose value is Python's \<open>None\<close>.
\<close>

record report =
  rep_status :: string
  rep_error :: "message option"
  rep_message :: "message option"
  rep_contract_address :: "string option"
  rep_contract_name :: "string option"
  rep_total_functions :: "nat option"
  rep_analysis_summary :: "analysis_summary option"
  rep_successful_functions :: "formatted_result list option"
  rep_failed_functions :: "failed_call list option"
  rep_timestamp :: string

definition error_report :: "message \<Rightarrow> string option \<Rightarrow> string \<Rightarrow> report" where
  "error_report reason address now =
     \<lparr>rep_status = ''error'', rep_error = Some reason, rep_message = None,
      rep_contract_address = address, rep_contract_name = None, rep_total_functions = None,
      rep_analysis_summary = None, rep_successful_functions = None,
      rep_failed_functions = None, rep_timestamp = now\<rparr>"

definition initialize :: "world \<Rightarrow> analyzer_state \<Rightarrow> event list \<times> analyzer_state \<times> bool" where
  "initialize w st =
     (if initialized st then ([], st, True)
      else
        (let check = verify_connection w st
         in if \<not> snd (snd check) then (fst check, fst (snd check), False)
            else (fst check, (fst (snd check))\<lparr>initialized := True\<rparr>, True)))"

text \<open>The body of the branch for a successful call (step 7 of \<open>analyze_contract\<close>).\<close>

definition format_success ::
  "(string \<Rightarrow> exn + string) \<Rightarrow> abi_entry \<Rightarrow> call_result \<Rightarrow> exn + formatted_result" where
  "format_success web3_to_checksum func_info result =
     (case cr_result result of
        None \<Rightarrow> Inl (KeyError ''result'')
      | Some v \<Rightarrow>
          (let output_type = get_output_type func_info;
               formatted = \<lparr>fr_function_name = cr_function_name result, fr_result = v,
                            fr_type = output_type, fr_status = ''success'',
                            fr_formatted_value = None, fr_checksum_address = None\<rparr>
           in if take 4 output_type = ''uint'' \<and> is_int v then
                (if 10 ^ 15 < int_value v then
                   (case format_large_number (int_value v) of
                      Inl e \<Rightarrow> Inl e
                    | Inr shown \<Rightarrow> Inr (formatted\<lparr>fr_formatted_value := Some shown\<rparr>))
                 else Inr formatted)
              else if output_type = ''address'' then
                Inr (formatted\<lparr>fr_checksum_address :=
                       Some (to_checksum_address web3_to_checksum (py_str v))\<rparr>)
              else Inr formatted))"

text \<open>The loop \<open>for i, result in enumerate(call_results)\<close>, from index \<open>i\<close> on, with the
  two lists built so far.\<close>

fun process_results ::
  "(string \<Rightarrow> exn + string) \<Rightarrow> abi_entry list \<Rightarrow> nat \<Rightarrow> call_result list
     \<Rightarrow> formatted_result list \<Rightarrow> failed_call list
     \<Rightarrow> exn + formatted_result list \<times> failed_call list" where
  "process_results web3_to_checksum view_functions i [] successful failed =
     Inr (successful, failed)"
| "process_results web3_to_checksum view_functions i (result # call_results) successful failed =
     (if cr_status result = ''success'' then
        (if length view_functions \<le> i then Inl (IndexError ''list index out of range'')
         else
           (case format_success web3_to_checksum (view_functions ! i) result of
              Inl e \<Rightarrow> Inl e
            | Inr formatted \<Rightarrow>
                process_results web3_to_checksum view_functions (Suc i) call_results
                  (successful @ [formatted]) failed))
      else
        process_results web3_to_checksum view_functions (Suc i) call_results successful
          (failed @ [\<lparr>fc_function_name = cr_function_name result,
                       fc_error = (case cr_error result of
                                     None \<Rightarrow> UnknownErrorDefault
                                   | Some m \<Rightarrow> m),
                       fc_status = ''failed''\<rparr>]))"

text \<open>\<open>[func["name"] for func in view_functions]\<close>: a missing key raises.\<close>

fun function_names_of :: "abi_entry list \<Rightarrow> exn + string list" where
  "function_names_of [] = Inr []"
| "function_names_of (func # view_functions) =
     (case entry_name func of
        None \<Rightarrow> Inl (KeyError ''name'')
      | Some name \<Rightarrow>
          (case function_names_of view_functions of
             Inl e \<Rightarrow> Inl e
           | Inr names \<Rightarrow> Inr (name # names)))"

definition analyze_contract ::
  "config \<Rightarrow> world \<Rightarrow> analyzer_state \<Rightarrow> string
     \<Rightarrow> event list \<times> analyzer_state \<times> (exn + report)" where
  "analyze_contract cfg w st contract_address =
     (let init = initialize w st; ev0 = fst init; st1 = fst (snd init); now = w_now w
      in if \<not> snd (snd init) then (ev0, st1, Inr (error_report AnalyzerInitFailed None now))
         else if \<not> is_valid_ethereum_address contract_address then
           (ev0, st1, Inr (error_report (InvalidAddressFormat contract_address) None now))
         else
           (let checksum_address = to_checksum_address (w_to_checksum w) contract_address;
                probe = is_contract_address cfg w checksum_address;
                ev1 = ev0 @ fst probe
            in if \<not> snd probe then
                 (ev1, st1, Inr (error_report (NotAContractAddress checksum_address) None now))
               else
                 (let fetched = get_contract_abi cfg w checksum_address;
                      ev2 = ev1 @ fst fetched;
                      abi = get_list (snd fetched)
                  in if abi = [] then
                       (ev2, st1, Inr (error_report AbiUnavailable (Some checksum_address) now))
                     else
                       (let view_functions = extract_view_functions abi
                        in if view_functions = [] then
                             (ev2, st1,
                              Inr \<lparr>rep_status = ''warning'', rep_error = None,
                                   rep_message = Some NoViewFunctionsFound,
                                   rep_contract_address = Some checksum_address,
                                   rep_contract_name = None,
                                   rep_total_functions =
                                     Some (length (filter (\<lambda>f. entry_type f = Some ''function'') abi)),
                                   rep_analysis_summary = None,
                                   rep_successful_functions = None,
                                   rep_failed_functions = None, rep_timestamp = now\<rparr>)
                           else
                             (let created = get_contract_instance cfg w checksum_address abi;
                                  ev3 = ev2 @ fst created
                              in case snd created of
                                   None \<Rightarrow>
                                     (ev3, st1,
                                      Inr (error_report CreateInstanceFailed
                                             (Some checksum_address) now))
                                 | Some contract \<Rightarrow>
                                     (case function_names_of view_functions of
                                        Inl e \<Rightarrow> (ev3, st1, Inl e)
                                      | Inr function_names \<Rightarrow>
                                          (let batch = batch_call_view_functions cfg contract
                                                         function_names;
                                               ev4 = ev3 @ fst batch
                                           in case process_results (w_to_checksum w)
                                                     view_functions 0 (snd batch) [] [] of
                                                Inl e \<Rightarrow> (ev4, st1, Inl e)
                                              | Inr both \<Rightarrow>
                                                  (let successful = fst both;
                                                       failed = snd both;
                                                       named = get_contract_name cfg w
                                                                 checksum_address
                                                   in (ev4 @ fst named, st1,
                                                       Inr \<lparr>rep_status = ''success'',
                                                            rep_error = None,
                                                            rep_message = None,
                                                            rep_contract_address =
                                                              Some checksum_address,
                                                            rep_contract_name = snd named,
                                                            rep_total_functions = None,
                                                            rep_analysis_summary = Some
                                                              \<lparr>total_view_functions =
                                                                 length view_functions,
                                                               successful_calls =
                                                                 length successful,
                                                               failed_calls = length failed\<rparr>,
                                                            rep_successful_functions =
                                                              Some successful,
                                                            rep_failed_functions =
                                                              (if failed \<noteq> [] then Some failed
                                                               else None),
                                                            rep_timestamp = now\<rparr>)))))))))"

section \<open>Specification predicates and sample inputs\<close>

text \<open>Whether invoking a name fails: the lookup raises or finds nothing, or the call
  raises at every attempt that the retry policy makes.\<close>

definition invocation_fails :: "config \<Rightarrow> contract \<Rightarrow> string \<Rightarrow> bool" where
  "invocation_fails cfg contract function_name =
     (case contract function_name of
        Inl e \<Rightarrow> True
      | Inr None \<Rightarrow> True
      | Inr (Some func) \<Rightarrow> isl (snd (retry_default func (max_retries cfg))))"

text \<open>Events other than the connectivity probes of the initialisation check and the
  sleeps between them.\<close>

definition is_probe :: "event \<Rightarrow> bool" where
  "is_probe ev = (case ev of Try oper k \<Rightarrow> oper = IsConnected | Wait d \<Rightarrow> True | ThrottleAcquire \<Rightarrow> False)"

definition is_try :: "event \<Rightarrow> bool" where
  "is_try ev = (case ev of Try oper k \<Rightarrow> True | _ \<Rightarrow> False)"

definition is_attempt :: "retry_event \<Rightarrow> bool" where
  "is_attempt ev = (case ev of Attempt k \<Rightarrow> True | Sleep d \<Rightarrow> False)"

text \<open>
  Decimal numerals, to say what a formatted text denotes: the value of a string of digits,
  a numeral without superfluous leading zeros, a numeral with six decimals and the number
  it stands for, and the numeral of an integer with its sign.
\<close>

definition is_digit :: "char \<Rightarrow> bool" where
  "is_digit c = (c \<in> set ''0123456789'')"

definition digit_value :: "char \<Rightarrow> int" where
  "digit_value c = int (of_char c) - 48"

definition digits_value :: "string \<Rightarrow> int" where
  "digits_value s = foldl (\<lambda>acc c. 10 * acc + digit_value c) 0 s"

definition whole_text :: "string \<Rightarrow> bool" where
  "whole_text whole =
     (whole \<noteq> [] \<and> list_all is_digit whole \<and> (whole = ''0'' \<or> hd whole \<noteq> CHR ''0''))"

definition decimal_text :: "string \<Rightarrow> string \<Rightarrow> bool" where
  "decimal_text whole decimals =
     (whole_text whole \<and> length decimals = 6 \<and> list_all is_digit decimals)"

definition integer_text :: "string \<Rightarrow> int \<Rightarrow> bool" where
  "integer_text s v =
     (if 0 \<le> v then whole_text s \<and> digits_value s = v
      else s \<noteq> [] \<and> hd s = CHR ''-'' \<and> whole_text (tl s) \<and> digits_value (tl s) = - v)"

definition decimal_number :: "string \<Rightarrow> string \<Rightarrow> real" where
  "decimal_number whole decimals =
     real_of_int (digits_value whole) + real_of_int (digits_value decimals) / 10 ^ 6"

text \<open>The number that a pair \<open>(m, e)\<close> stands for, \<open>m * 2 ^ e\<close>.\<close>

definition double_value :: "int \<times> int \<Rightarrow> real" where
  "double_value x =
     (if 0 \<le> snd x then real_of_int (fst x) * 2 ^ nat (snd x)
      else real_of_int (fst x) / 2 ^ nat (- snd x))"

text \<open>A sample contract: \<open>totalSupply\<close> answers, \<open>owner\<close> reverts at every attempt, and no
  other function exists.\<close>

definition demo_address :: string where
  "demo_address = ''0x5aaeb6053f3e94c9b9a09f33669435e7ef1beaed''"

definition demo_abi :: "abi_entry list" where
  "demo_abi =
     [\<lparr>entry_type = Some ''function'', entry_name = Some ''totalSupply'',
       entry_stateMutability = Some ''view'', entry_inputs = Some [],
       entry_outputs = Some [\<lparr>param_type = Some ''uint256''\<rparr>]\<rparr>,
      \<lparr>entry_type = Some ''function'', entry_name = Some ''balanceOf'',
       entry_stateMutability = Some ''view'',
       entry_inputs = Some [\<lparr>param_type = Some ''address''\<rparr>],
       entry_outputs = Some [\<lparr>param_type = Some ''uint256''\<rparr>]\<rparr>,
      \<lparr>entry_type = Some ''function'', entry_name = Some ''pause'',
       entry_stateMutability = Some ''nonpayable'', entry_inputs = Some [],
       entry_outputs = Some []\<rparr>,
      \<lparr>entry_type = Some ''function'', entry_name = Some ''owner'',
       entry_stateMutability = Some ''view'', entry_inputs = Some [],
       entry_outputs = Some [\<lparr>param_type = Some ''address''\<rparr>]\<rparr>]"

definition demo_contract :: contract where
  "demo_contract name =
     (if name = ''totalSupply'' then Inr (Some (\<lambda>k. Inr (PInt 1000000000000000000000)))
      else if name = ''owner'' then
        Inr (Some (\<lambda>k. Inl (ContractLogicError ''execution reverted'')))
      else Inr None)"

text \<open>A stand-in for the library's checksum routine: the EIP-55 algorithm with a hash
  whose nibbles are all 8, which writes every hexadecimal letter of an address in upper
  case.\<close>

definition sample_checksum :: "string \<Rightarrow> exn + string" where
  "sample_checksum = eip55_checksum (\<lambda>body. replicate (length body) 8)"

definition demo_world :: world where
  "demo_world =
     \<lparr>w_is_connected = (\<lambda>k. Inr True),
      w_get_code = (\<lambda>address k. if k = 0 then Inl (Web3Exception ''timeout'') else Inr ''code''),
      w_eth_contract = (\<lambda>address abi k. Inr demo_contract),
      w_requests_get = (\<lambda>p k.
         if param_action p = ''getabi''
         then Inr \<lparr>resp_status = Some ''1'', resp_message = Some ''OK'',
                   resp_result = Some (ResultStr ''[...]'')\<rparr>
         else Inr \<lparr>resp_status = Some ''1'', resp_message = Some ''OK'',
                   resp_result = Some (ResultList
                     [\<lparr>si_SourceCode = Some ''contract Token {}'', si_ABI = Some ''[...]'',
                       si_ContractName = Some '' Token ''\<rparr>])\<rparr>),
      w_json_loads = (\<lambda>s. Inr (JsonList demo_abi)),
      w_to_checksum = sample_checksum,
      w_now = ''2025-01-01T00:00:00''\<rparr>"

text \<open>The same world with the node unreachable, and with a metadata service whose first
  answer to every request is an HTTP error.\<close>

definition offline_world :: world where
  "offline_world =
     demo_world\<lparr>w_is_connected := (\<lambda>k. Inl (Web3Exception ''connection refused''))\<rparr>"

definition flaky_world :: world where
  "flaky_world =
     demo_world\<lparr>w_requests_get := (\<lambda>p k.
        if k = 0 then Inl (OtherException ''503 Server Error'')
        else Inr \<lparr>resp_status = Some ''0'', resp_message = Some ''NOTOK'',
                  resp_result = None\<rparr>)\<rparr>"

definition demo_config :: config where
  "demo_config = \<lparr>etherscan_api_key = ''KEY'', chain_id = 1, max_retries = 3\<rparr>"

definition demo_params :: params where
  "demo_params =
     \<lparr>param_module = ''contract'', param_action = ''getabi'', param_address = demo_address,
      param_apikey = None, param_chainid = None\<rparr>"

definition fresh :: analyzer_state where
  "fresh = \<lparr>initialized = False, connection_verified = False\<rparr>"

text \<open>The report of analysing the sample contract in the sample world.\<close>

definition demo_report :: report where
  "demo_report =
     \<lparr>rep_status = ''success'', rep_error = None, rep_message = None,
      rep_contract_address = Some ''0x5AAEB6053F3E94C9B9A09F33669435E7EF1BEAED'',
      rep_contract_name = Some ''Token'', rep_total_functions = None,
      rep_analysis_summary =
        Some \<lparr>total_view_functions = 2, successful_calls = 1, failed_calls = 1\<rparr>,
      rep_successful_functions =
        Some [\<lparr>fr_function_name = ''totalSupply'',
                fr_result = PInt 1000000000000000000000,
                fr_type = ''uint256'', fr_status = ''success'',
                fr_formatted_value = Some ''1000.000000 Ether'',
                fr_checksum_address = None\<rparr>],
      rep_failed_functions =
        Some [\<lparr>fc_function_name = ''owner'',
                fc_error = ContractLogicErrorMsg ''execution reverted'',
                fc_status = ''failed''\<rparr>],
      rep_timestamp = ''2025-01-01T00:00:00''\<rparr>"

section \<open>Properties\<close>

subsection \<open>The retry policy\<close>

lemma failed_rounds_step:
  "a < k \<Longrightarrow> failed_rounds b f a k = Attempt a # Sleep (b * f ^ a) # failed_rounds b f (Suc a) k"
  by (simp add: failed_rounds_def upt_conv_Cons)

lemma failed_rounds_empty: "failed_rounds b f a a = []"
  by (simp add: failed_rounds_def)

lemma retry_loop_success:
  "a \<le> k \<Longrightarrow> int k \<le> m \<Longrightarrow> (\<forall>i. a \<le> i \<and> i < k \<longrightarrow> isl (func i)) \<Longrightarrow> func k = Inr v
   \<Longrightarrow> retry_loop func m b f a lst = (failed_rounds b f a k @ [Attempt k], Inr v)"
proof (induction "k - a" arbitrary: a lst)
  case 0
  then have "a = k" by simp
  with 0 show ?case
    by (subst retry_loop.simps) (simp add: failed_rounds_empty)
next
  case (Suc n)
  then have lt: "a < k" by simp
  with Suc.prems obtain e where e: "func a = Inl e"
    by (cases "func a") auto
  have ih: "retry_loop func m b f (Suc a) (Some e) = (failed_rounds b f (Suc a) k @ [Attempt k], Inr v)"
    using Suc.hyps(1)[of "Suc a" "Some e"] Suc.hyps(2) Suc.prems lt by simp
  from lt Suc.prems(2) have "int a < m + 1" "int a \<noteq> m" by simp_all
  then show ?case
    by (subst retry_loop.simps) (simp add: e ih failed_rounds_step[OF lt])
qed

lemma retry_loop_exhausted:
  "int a \<le> m \<Longrightarrow> (\<forall>i. a \<le> i \<and> int i \<le> m \<longrightarrow> isl (func i))
   \<Longrightarrow> retry_loop func m b f a lst = (failed_rounds b f a (nat m) @ [Attempt (nat m)], Inl (projl (func (nat m))))"
proof (induction "nat m - a" arbitrary: a lst)
  case 0
  then have am: "a = nat m" by simp
  with 0 obtain e where e: "func a = Inl e" by (cases "func a") auto
  from am 0 have "int a = m" by linarith
  moreover from am have "nat m = a" by simp
  ultimately show ?case
    by (subst retry_loop.simps) (simp add: e failed_rounds_empty reraise_def)
next
  case (Suc n)
  then have lt: "a < nat m" by simp
  with Suc.prems obtain e where e: "func a = Inl e"
    by (cases "func a") auto
  have ih: "retry_loop func m b f (Suc a) (Some e) = (failed_rounds b f (Suc a) (nat m) @ [Attempt (nat m)], Inl (projl (func (nat m))))"
    using Suc.hyps(1)[of "Suc a" "Some e"] Suc.hyps(2) Suc.prems lt by simp
  from lt have "int a < m + 1" "int a \<noteq> m" by simp_all
  then show ?case
    by (subst retry_loop.simps) (simp add: e ih failed_rounds_step[OF lt])
qed

lemma first_success_or_all_fail:
  "(\<exists>k\<le>n::nat. (\<forall>i<k. isl (func i)) \<and> \<not> isl (func k)) \<or> (\<forall>i\<le>n. isl (func i))"
proof (induction n)
  case 0
  then show ?case by auto
next
  case (Suc n)
  then show ?case
  proof
    assume "\<exists>k\<le>n. (\<forall>i<k. isl (func i)) \<and> \<not> isl (func k)"
    then show ?thesis by (meson le_Suc_eq)
  next
    assume all: "\<forall>i\<le>n. isl (func i)"
    show ?thesis
    proof (cases "isl (func (Suc n))")
      case True
      with all show ?thesis by (auto simp: le_Suc_eq)
    next
      case False
      with all have "(\<forall>i<Suc n. isl (func i)) \<and> \<not> isl (func (Suc n))" by (simp add: less_Suc_eq_le)
      then show ?thesis by blast
    qed
  qed
qed


lemma attempts_failed_rounds:
  "length (filter is_attempt (failed_rounds b f a k)) = k - a"
proof (induction k)
  case 0
  then show ?case by (simp add: failed_rounds_def)
next
  case (Suc k)
  show ?case
  proof (cases "a \<le> k")
    case True
    then have "failed_rounds b f a (Suc k) = failed_rounds b f a k @ [Attempt k, Sleep (b * f ^ k)]"
      by (simp add: failed_rounds_def)
    with Suc True show ?thesis by (simp add: is_attempt_def Suc_diff_le)
  next
    case False
    then show ?thesis by (simp add: failed_rounds_def)
  qed
qed

text \<open>
  C4.  With a retry budget \<open>max_retries \<ge> 0\<close>, \<open>retry_with_backoff\<close> calls the operation at
  most \<open>max_retries + 1\<close> times, the first time without delay.  If the operation first
  succeeds at attempt \<open>k \<le> max_retries\<close>, the run consists of the failed attempts
  \<open>0, ..., k - 1\<close>, each followed by a sleep of \<open>base_delay * backoff_factor ^ i\<close> (\<open>i\<close> the
  index of the attempt that just failed), then attempt \<open>k\<close>, and it returns that result.
  If all \<open>max_retries + 1\<close> attempts fail, it sleeps between them in the same way and
  raises the exception of the last attempt.  It raises in no other case.
\<close>

theorem retry_with_backoff_attempts:
  assumes "0 \<le> retries"
  shows "(\<forall>k v. k \<le> nat retries \<and> (\<forall>i<k. isl (func i)) \<and> func k = Inr v \<longrightarrow>
            retry_with_backoff func retries base_delay backoff_factor =
              (failed_rounds base_delay backoff_factor 0 k @ [Attempt k], Inr v))
       \<and> ((\<forall>i\<le>nat retries. isl (func i)) \<longrightarrow>
            retry_with_backoff func retries base_delay backoff_factor =
              (failed_rounds base_delay backoff_factor 0 (nat retries)
                 @ [Attempt (nat retries)],
               Inl (projl (func (nat retries)))))
       \<and> (isl (snd (retry_with_backoff func retries base_delay backoff_factor)) \<longrightarrow>
            (\<forall>i\<le>nat retries. isl (func i)))
       \<and> length (filter is_attempt
                   (fst (retry_with_backoff func retries base_delay backoff_factor)))
            \<le> nat retries + 1"
proof -
  let ?run = "retry_with_backoff func retries base_delay backoff_factor"
  have success: "?run = (failed_rounds base_delay backoff_factor 0 k @ [Attempt k], Inr v)"
    if "k \<le> nat retries" "\<forall>i<k. isl (func i)" "func k = Inr v" for k v
  proof -
    from that(1) assms have "int k \<le> retries" by linarith
    with that show ?thesis
      unfolding retry_with_backoff_def by (intro retry_loop_success) auto
  qed
  have exhausted: "?run = (failed_rounds base_delay backoff_factor 0 (nat retries)
                             @ [Attempt (nat retries)],
                           Inl (projl (func (nat retries))))"
    if "\<forall>i\<le>nat retries. isl (func i)"
    unfolding retry_with_backoff_def using assms that by (intro retry_loop_exhausted) auto
  have cases: "(\<exists>k\<le>nat retries. (\<forall>i<k. isl (func i)) \<and> \<not> isl (func k))
                 \<or> (\<forall>i\<le>nat retries. isl (func i))"
    by (rule first_success_or_all_fail)
  have only: "\<forall>i\<le>nat retries. isl (func i)" if fl: "isl (snd ?run)"
    using cases
  proof
    assume "\<exists>k\<le>nat retries. (\<forall>i<k. isl (func i)) \<and> \<not> isl (func k)"
    then obtain k where k: "k \<le> nat retries" "\<forall>i<k. isl (func i)" "\<not> isl (func k)"
      by blast
    then obtain v where "func k = Inr v" by (cases "func k") auto
    with k have "?run = (failed_rounds base_delay backoff_factor 0 k @ [Attempt k], Inr v)"
      by (intro success)
    with fl show ?thesis by simp
  qed
  have count: "length (filter is_attempt (fst ?run)) \<le> nat retries + 1"
    using cases
  proof
    assume "\<exists>k\<le>nat retries. (\<forall>i<k. isl (func i)) \<and> \<not> isl (func k)"
    then obtain k where k: "k \<le> nat retries" "\<forall>i<k. isl (func i)" "\<not> isl (func k)"
      by blast
    then obtain v where "func k = Inr v" by (cases "func k") auto
    with k have "?run = (failed_rounds base_delay backoff_factor 0 k @ [Attempt k], Inr v)"
      by (intro success)
    with k(1) show ?thesis by (simp add: attempts_failed_rounds is_attempt_def)
  next
    assume "\<forall>i\<le>nat retries. isl (func i)"
    then show ?thesis by (simp add: exhausted attempts_failed_rounds is_attempt_def)
  qed
  from success exhausted only count show ?thesis by blast
qed

theorem retry_with_backoff_attempts_witness:
  "(0::int) \<le> 3
   \<and> retry_with_backoff
        (\<lambda>k. if k < 2 then Inl (Web3Exception ''timeout'') else Inr (7::int)) 3 1 2
       = ([Attempt 0, Sleep 1, Attempt 1, Sleep 2, Attempt 2], Inr 7)
   \<and> retry_with_backoff
        (\<lambda>k. (Inl (Web3Exception (''timeout '' @ [''0123'' ! k])) :: exn + int)) 3 1 2
       = ([Attempt 0, Sleep 1, Attempt 1, Sleep 2, Attempt 2, Sleep 4, Attempt 3],
          Inl (Web3Exception ''timeout 3''))"
proof -
  let ?f = "\<lambda>k::nat. if k < 2 then Inl (Web3Exception ''timeout'') else Inr (7::int)"
  let ?g = "\<lambda>k::nat. (Inl (Web3Exception (''timeout '' @ [''0123'' ! k])) :: exn + int)"
  have h: "(0::int) \<le> 3" by simp
  have "(2::nat) \<le> nat 3 \<and> (\<forall>i<2. isl (?f i)) \<and> ?f 2 = Inr 7" by simp
  with retry_with_backoff_attempts[OF h, of ?f 1 2]
  have "retry_with_backoff ?f 3 1 2 = (failed_rounds 1 2 0 2 @ [Attempt 2], Inr 7)" by blast
  moreover have "\<forall>i\<le>nat 3. isl (?g i)" by simp
  with retry_with_backoff_attempts[OF h, of ?g 1 2]
  have "retry_with_backoff ?g 3 1 2
          = (failed_rounds 1 2 0 (nat 3) @ [Attempt (nat 3)], Inl (projl (?g (nat 3))))"
    by blast
  moreover have "[0..<2] = [0, 1]" "[0..<3] = [0, 1, 2]" by (simp_all add: upt_rec)
  ultimately show ?thesis by (simp add: failed_rounds_def)
qed

subsection \<open>The ABI filter\<close>

lemma length_get_list_0: "length (get_list v) = 0 \<longleftrightarrow> v = None \<or> v = Some []"
  by (cases v) (simp_all add: get_list_def)

text \<open>
  C6.  \<open>extract_view_functions\<close> returns exactly the entries of the ABI whose kind is
  \<open>function\<close>, whose state mutability is \<open>view\<close> or \<open>pure\<close> and that declare no input:
  it is the filter of the ABI by that predicate, so its entries are those entries of the
  ABI that satisfy the predicate, and they come in the order of the ABI (the result is a
  subsequence of it).  Every other entry is left out.
\<close>

theorem extract_view_functions_filter:
  "extract_view_functions abi = filter invocable abi
   \<and> set (extract_view_functions abi) = {item \<in> set abi. invocable item}
   \<and> subseq (extract_view_functions abi) abi"
proof -
  have "extract_view_functions abi = filter invocable abi"
    by (induction abi) (simp_all add: invocable_def length_get_list_0 del: length_0_conv)
  then show ?thesis by simp
qed

text \<open>The example of the specification: of a \<open>view\<close> function without inputs, a \<open>view\<close>
  function with one input and a \<open>nonpayable\<close> function without inputs, the first is kept.\<close>

lemma extract_view_functions_example:
  "extract_view_functions
     [\<lparr>entry_type = Some ''function'', entry_name = Some ''a'',
       entry_stateMutability = Some ''view'', entry_inputs = Some [], entry_outputs = None\<rparr>,
      \<lparr>entry_type = Some ''function'', entry_name = Some ''b'',
       entry_stateMutability = Some ''view'',
       entry_inputs = Some [\<lparr>param_type = Some ''uint256''\<rparr>], entry_outputs = None\<rparr>,
      \<lparr>entry_type = Some ''function'', entry_name = Some ''c'',
       entry_stateMutability = Some ''nonpayable'', entry_inputs = Some [],
       entry_outputs = None\<rparr>]
   = [\<lparr>entry_type = Some ''function'', entry_name = Some ''a'',
       entry_stateMutability = Some ''view'', entry_inputs = Some [], entry_outputs = None\<rparr>]"
  by (simp add: get_list_def)

subsection \<open>Address validation\<close>

text \<open>
  C8.  The address check accepts a string that is not \<open>0x\<close> followed by 40 hexadecimal
  characters: an address followed by one newline, 43 characters long.
\<close>

theorem is_valid_ethereum_address_trailing_newline:
  "is_valid_ethereum_address (''0x5aaeb6053f3e94c9b9a09f33669435e7ef1beaed'' @ [CHR 0x0A])
   \<and> \<not> address_syntax (''0x5aaeb6053f3e94c9b9a09f33669435e7ef1beaed'' @ [CHR 0x0A])"
  by (simp add: is_valid_ethereum_address_def re_match_address_def address_syntax_def
      is_hex_char_def)

text \<open>What the check accepts, in full: the addresses, and the addresses followed by one
  newline.\<close>

lemma is_valid_ethereum_address_iff:
  "is_valid_ethereum_address s \<longleftrightarrow>
     address_syntax s \<or> (\<exists>a. address_syntax a \<and> s = a @ [CHR 0x0A])"
proof
  assume v: "is_valid_ethereum_address s"
  then have m: "take 2 s = ''0x''" "length (take 40 (drop 2 s)) = 40"
    "list_all is_hex_char (take 40 (drop 2 s))" "drop 42 s = [] \<or> drop 42 s = [CHR 0x0A]"
    by (auto simp: is_valid_ethereum_address_def re_match_address_def split: if_splits)
  from m(2) have len: "42 \<le> length s" by simp
  from m(4) show "address_syntax s \<or> (\<exists>a. address_syntax a \<and> s = a @ [CHR 0x0A])"
  proof
    assume "drop 42 s = []"
    with len have "length s = 42" by simp
    with m show ?thesis by (simp add: address_syntax_def)
  next
    assume d: "drop 42 s = [CHR 0x0A]"
    have s: "s = take 42 s @ [CHR 0x0A]" using d append_take_drop_id[of 42 s] by simp
    have "take 40 (drop 2 (take 42 s)) = take 40 (drop 2 s)"
      by (simp add: drop_take)
    moreover have "length (take 42 s) = 42" using len by simp
    moreover have "drop 2 (take 42 s) = take 40 (drop 2 s)" by (simp add: drop_take)
    ultimately have "address_syntax (take 42 s)"
      using m len by (simp add: address_syntax_def)
    with s show ?thesis by blast
  qed
next
  assume "address_syntax s \<or> (\<exists>a. address_syntax a \<and> s = a @ [CHR 0x0A])"
  then show "is_valid_ethereum_address s"
  proof
    assume "address_syntax s"
    then show ?thesis
      by (auto simp: is_valid_ethereum_address_def re_match_address_def address_syntax_def)
  next
    assume "\<exists>a. address_syntax a \<and> s = a @ [CHR 0x0A]"
    then obtain a where "address_syntax a" "s = a @ [CHR 0x0A]" by blast
    then show ?thesis
      by (auto simp: is_valid_ethereum_address_def re_match_address_def address_syntax_def)
  qed
qed

subsection \<open>Address normalisation\<close>

lemma lower_hex_idem: "lower_hex (lower_hex c) = lower_hex c"
  by (simp add: lower_hex_def)

lemma lower_upper_hex: "lower_hex (upper_hex c) = lower_hex c"
  by (simp add: lower_hex_def upper_hex_def)

lemma is_hex_upper: "is_hex_char c \<Longrightarrow> is_hex_char (upper_hex c)"
  by (auto simp: is_hex_char_def upper_hex_def)

lemma is_hex_lower: "is_hex_char c \<Longrightarrow> is_hex_char (lower_hex c)"
  by (auto simp: is_hex_char_def lower_hex_def)

lemma length_checksum_case:
  "length (checksum_case body nibbles) = min (length body) (length nibbles)"
  by (simp add: checksum_case_def)

lemma lower_checksum_case:
  "length body \<le> length nibbles \<Longrightarrow>
   map lower_hex (checksum_case (map lower_hex body) nibbles) = map lower_hex body"
proof (induction body arbitrary: nibbles)
  case Nil
  then show ?case by (simp add: checksum_case_def)
next
  case (Cons c body)
  then obtain n rest where n: "nibbles = n # rest" by (cases nibbles) auto
  with Cons.prems have "length body \<le> length rest" by simp
  from Cons.IH[OF this] n show ?case
    by (simp add: checksum_case_def lower_upper_hex lower_hex_idem)
qed

lemma hex_checksum_case:
  "list_all is_hex_char body \<Longrightarrow> list_all is_hex_char (checksum_case body nibbles)"
proof (induction body arbitrary: nibbles)
  case Nil
  then show ?case by (simp add: checksum_case_def)
next
  case (Cons c body)
  show ?case
  proof (cases nibbles)
    case Nil
    then show ?thesis by (simp add: checksum_case_def)
  next
    case (Cons n rest)
    with Cons.IH[of rest] Cons.prems show ?thesis
      by (simp add: checksum_case_def is_hex_upper)
  qed
qed

lemma eip55_fixed:
  assumes "eip55_checksum hash_nibbles x = Inr y"
  shows "eip55_checksum hash_nibbles y = Inr y \<or> isl (eip55_checksum hash_nibbles y)"
proof -
  from assms have syn: "address_syntax x"
    by (auto simp: eip55_checksum_def split: if_splits)
  define body where "body = map lower_hex (drop 2 x)"
  from assms syn have y: "y = ''0x'' @ checksum_case body (hash_nibbles body)"
    by (simp add: eip55_checksum_def body_def Let_def)
  from syn have len: "length body = 40" by (simp add: body_def address_syntax_def)
  from syn have hex: "list_all is_hex_char body"
    by (simp add: body_def address_syntax_def list_all_iff is_hex_lower)
  show ?thesis
  proof (cases "address_syntax y")
    case False
    then show ?thesis by (simp add: eip55_checksum_def)
  next
    case True
    with y have "length (checksum_case body (hash_nibbles body)) = 40"
      by (simp add: address_syntax_def)
    with len have enough: "length (drop 2 x) \<le> length (hash_nibbles body)"
      by (simp add: length_checksum_case body_def min_def split: if_splits)
    have "map lower_hex (checksum_case (map lower_hex (drop 2 x)) (hash_nibbles body))
            = map lower_hex (drop 2 x)"
      using enough by (rule lower_checksum_case)
    then have "map lower_hex (drop 2 y) = body" by (simp add: y body_def)
    with True y show ?thesis by (simp add: eip55_checksum_def Let_def)
  qed
qed

lemma to_checksum_address_fixed:
  assumes "\<forall>y. web3_to_checksum x = Inr y \<longrightarrow>
             web3_to_checksum y = Inr y \<or> isl (web3_to_checksum y)"
  shows "to_checksum_address web3_to_checksum (to_checksum_address web3_to_checksum x)
           = to_checksum_address web3_to_checksum x"
proof (cases "web3_to_checksum x")
  case (Inl e)
  then show ?thesis by (simp add: to_checksum_address_def)
next
  case (Inr y)
  with assms have "web3_to_checksum y = Inr y \<or> isl (web3_to_checksum y)" by blast
  with Inr show ?thesis
    by (cases "web3_to_checksum y") (auto simp: to_checksum_address_def)
qed

text \<open>
  C9.  \<open>to_checksum_address\<close> returns a string for every input and every behaviour of
  the library: the library's result, or the input itself when the library raises.  With
  the checksum algorithm of the specification, whatever the hash function, it is
  idempotent at every string.  For an arbitrary library routine it is idempotent at \<open>x\<close>
  as soon as the routine, applied to an address that it produced from \<open>x\<close>, returns
  that address again or raises.
\<close>

theorem to_checksum_address_idempotent:
  "to_checksum_address (eip55_checksum hash_nibbles)
       (to_checksum_address (eip55_checksum hash_nibbles) x)
     = to_checksum_address (eip55_checksum hash_nibbles) x
   \<and> (isl (web3_to_checksum x) \<longrightarrow> to_checksum_address web3_to_checksum x = x)
   \<and> ((\<forall>y. web3_to_checksum x = Inr y \<longrightarrow>
              web3_to_checksum y = Inr y \<or> isl (web3_to_checksum y)) \<longrightarrow>
        to_checksum_address web3_to_checksum (to_checksum_address web3_to_checksum x)
          = to_checksum_address web3_to_checksum x)"
proof (intro conjI impI)
  have "\<forall>y. eip55_checksum hash_nibbles x = Inr y \<longrightarrow>
          eip55_checksum hash_nibbles y = Inr y \<or> isl (eip55_checksum hash_nibbles y)"
    using eip55_fixed by blast
  then show "to_checksum_address (eip55_checksum hash_nibbles)
       (to_checksum_address (eip55_checksum hash_nibbles) x)
     = to_checksum_address (eip55_checksum hash_nibbles) x"
    by (rule to_checksum_address_fixed)
next
  assume "isl (web3_to_checksum x)"
  then show "to_checksum_address web3_to_checksum x = x"
    by (cases "web3_to_checksum x") (simp_all add: to_checksum_address_def)
next
  assume "\<forall>y. web3_to_checksum x = Inr y \<longrightarrow>
              web3_to_checksum y = Inr y \<or> isl (web3_to_checksum y)"
  then show "to_checksum_address web3_to_checksum (to_checksum_address web3_to_checksum x)
          = to_checksum_address web3_to_checksum x"
    by (rule to_checksum_address_fixed)
qed

theorem to_checksum_address_idempotent_witness:
  "isl (sample_checksum ''not-an-address'')
   \<and> to_checksum_address sample_checksum ''not-an-address'' = ''not-an-address''
   \<and> sample_checksum demo_address = Inr ''0x5AAEB6053F3E94C9B9A09F33669435E7EF1BEAED''
   \<and> sample_checksum ''0x5AAEB6053F3E94C9B9A09F33669435E7EF1BEAED''
       = Inr ''0x5AAEB6053F3E94C9B9A09F33669435E7EF1BEAED''
   \<and> to_checksum_address sample_checksum (to_checksum_address sample_checksum demo_address)
       = to_checksum_address sample_checksum demo_address
   \<and> to_checksum_address sample_checksum demo_address
       = ''0x5AAEB6053F3E94C9B9A09F33669435E7EF1BEAED''"
proof -
  have v: "sample_checksum demo_address = Inr ''0x5AAEB6053F3E94C9B9A09F33669435E7EF1BEAED''"
    by (simp add: sample_checksum_def eip55_checksum_def checksum_case_def lower_hex_def
        Let_def demo_address_def address_syntax_def is_hex_char_def upper_hex_def)
  have w: "sample_checksum ''0x5AAEB6053F3E94C9B9A09F33669435E7EF1BEAED''
             = Inr ''0x5AAEB6053F3E94C9B9A09F33669435E7EF1BEAED''"
    by (simp add: sample_checksum_def eip55_checksum_def checksum_case_def lower_hex_def
        Let_def address_syntax_def is_hex_char_def upper_hex_def)
  have h: "\<forall>y. sample_checksum demo_address = Inr y \<longrightarrow>
             sample_checksum y = Inr y \<or> isl (sample_checksum y)"
    by (simp add: v w)
  have n: "isl (sample_checksum ''not-an-address'')"
    by (simp add: sample_checksum_def eip55_checksum_def address_syntax_def)
  note inst = to_checksum_address_idempotent
                [of "\<lambda>body. replicate (length body) 8" demo_address sample_checksum]
  note fallback = to_checksum_address_idempotent
                [of "\<lambda>body. replicate (length body) 8" "''not-an-address''" sample_checksum]
  from fallback[THEN conjunct2, THEN conjunct1, THEN mp, OF n]
  have f: "to_checksum_address sample_checksum ''not-an-address'' = ''not-an-address''" .
  from inst[THEN conjunct2, THEN conjunct2, THEN mp, OF h]
  have i: "to_checksum_address sample_checksum (to_checksum_address sample_checksum demo_address)
       = to_checksum_address sample_checksum demo_address" .
  have d: "to_checksum_address sample_checksum demo_address
       = ''0x5AAEB6053F3E94C9B9A09F33669435E7EF1BEAED''"
    by (simp add: to_checksum_address_def v)
  from n f v w i d show ?thesis by (intro conjI)
qed

subsection \<open>Invocation and batch isolation\<close>

lemma length_process_gathered:
  "length (process_gathered function_names i results) = length results"
  by (induction results arbitrary: i) simp_all

lemma nth_process_gathered:
  "j < length results \<Longrightarrow>
   process_gathered function_names i results ! j =
     (case results ! j of
        Inl e \<Rightarrow> \<lparr>cr_function_name = function_names ! (i + j), cr_status = ''error'',
                  cr_result = None, cr_error = Some (CallExceptionMsg (str_exn e))\<rparr>
      | Inr r \<Rightarrow> r)"
proof (induction results arbitrary: i j)
  case Nil
  then show ?case by simp
next
  case (Cons result results)
  show ?case
  proof (cases j)
    case 0
    then show ?thesis by (simp split: sum.splits)
  next
    case (Suc j')
    with Cons.prems have "j' < length results" by simp
    from Cons.IH[OF this, of "Suc i"] Suc show ?thesis by (simp split: sum.splits)
  qed
qed

lemma call_view_function_name:
  "cr_function_name (snd (call_view_function cfg contract function_name)) = function_name"
  by (simp add: call_view_function_def call_error_def Let_def split: sum.splits option.splits)

lemma call_view_function_status:
  "cr_status (snd (call_view_function cfg contract function_name)) =
     (if invocation_fails cfg contract function_name then ''error'' else ''success'')"
  by (auto simp: call_view_function_def call_error_def invocation_fails_def Let_def
      split: sum.splits option.splits)

lemma batch_results:
  "snd (batch_call_view_functions cfg contract function_names) =
     map (\<lambda>name. snd (call_view_function cfg contract name)) function_names"
proof (rule nth_equalityI)
  show "length (snd (batch_call_view_functions cfg contract function_names)) =
        length (map (\<lambda>name. snd (call_view_function cfg contract name)) function_names)"
    by (simp add: batch_call_view_functions_def gather_calls_def Let_def length_process_gathered)
next
  fix i
  assume "i < length (snd (batch_call_view_functions cfg contract function_names))"
  then have i: "i < length function_names"
    by (simp add: batch_call_view_functions_def gather_calls_def Let_def length_process_gathered)
  then show "snd (batch_call_view_functions cfg contract function_names) ! i =
        map (\<lambda>name. snd (call_view_function cfg contract name)) function_names ! i"
    by (simp add: batch_call_view_functions_def gather_calls_def Let_def nth_process_gathered)
qed

lemma call_view_function_cong:
  "other function_name = contract function_name \<Longrightarrow>
   call_view_function cfg other function_name = call_view_function cfg contract function_name"
  by (simp add: call_view_function_def)

text \<open>
  C1.  \<open>batch_call_view_functions\<close> returns one outcome per function name, in the order of
  the names: the outcome at position \<open>i\<close> is the outcome of invoking the \<open>i\<close>-th name alone,
  it carries that name, and it is marked as an error exactly when that invocation fails
  and as a success otherwise.  The outcome at a position depends on the contract's
  behaviour for that name only, whatever the other names do.  An exception that escapes
  an invocation becomes an error outcome at its own position and leaves the outcomes of
  the other positions as they are.
\<close>

theorem batch_call_view_functions_isolation:
  "length (snd (batch_call_view_functions cfg contract function_names)) = length function_names
   \<and> (\<forall>i<length function_names.
         snd (batch_call_view_functions cfg contract function_names) ! i
           = snd (call_view_function cfg contract (function_names ! i))
         \<and> cr_function_name (snd (batch_call_view_functions cfg contract function_names) ! i)
             = function_names ! i
         \<and> cr_status (snd (batch_call_view_functions cfg contract function_names) ! i)
             = (if invocation_fails cfg contract (function_names ! i)
                then ''error'' else ''success''))
   \<and> (\<forall>other. \<forall>i<length function_names.
         other (function_names ! i) = contract (function_names ! i) \<longrightarrow>
         snd (batch_call_view_functions cfg other function_names) ! i
           = snd (batch_call_view_functions cfg contract function_names) ! i)
   \<and> (\<forall>results.
         length (process_gathered function_names 0 results) = length results
         \<and> (\<forall>i<length results. \<forall>e. results ! i = Inl e \<longrightarrow>
               cr_status (process_gathered function_names 0 results ! i) = ''error''
               \<and> cr_function_name (process_gathered function_names 0 results ! i)
                   = function_names ! i)
         \<and> (\<forall>i<length results. \<forall>r. results ! i = Inr r \<longrightarrow>
               process_gathered function_names 0 results ! i = r))"
proof (intro conjI allI impI)
  show "length (snd (batch_call_view_functions cfg contract function_names))
          = length function_names"
    by (simp add: batch_results)
next
  fix i assume "i < length function_names"
  then show "snd (batch_call_view_functions cfg contract function_names) ! i
           = snd (call_view_function cfg contract (function_names ! i))"
    by (simp add: batch_results)
next
  fix i assume "i < length function_names"
  then show "cr_function_name (snd (batch_call_view_functions cfg contract function_names) ! i)
             = function_names ! i"
    by (simp add: batch_results call_view_function_name)
next
  fix i assume "i < length function_names"
  then show "cr_status (snd (batch_call_view_functions cfg contract function_names) ! i)
             = (if invocation_fails cfg contract (function_names ! i)
                then ''error'' else ''success'')"
    by (simp only: batch_results nth_map call_view_function_status)
next
  fix other i
  assume "i < length function_names"
    and "other (function_names ! i) = contract (function_names ! i)"
  then show "snd (batch_call_view_functions cfg other function_names) ! i
           = snd (batch_call_view_functions cfg contract function_names) ! i"
    using call_view_function_cong[of other "function_names ! i" contract cfg]
    by (simp add: batch_results)
next
  fix results :: "(exn + call_result) list"
  show "length (process_gathered function_names 0 results) = length results"
    by (rule length_process_gathered)
next
  fix results :: "(exn + call_result) list" and i e
  assume "i < length results" and "results ! i = Inl e"
  then show "cr_status (process_gathered function_names 0 results ! i) = ''error''"
    and "cr_function_name (process_gathered function_names 0 results ! i) = function_names ! i"
    by (simp_all add: nth_process_gathered)
next
  fix results :: "(exn + call_result) list" and i r
  assume "i < length results" and "results ! i = Inr r"
  then show "process_gathered function_names 0 results ! i = r"
    by (simp add: nth_process_gathered)
qed

lemma owner_fails: "invocation_fails demo_config demo_contract ''owner''"
  by (simp add: invocation_fails_def demo_contract_def demo_config_def retry_default_def
      retry_with_backoff_def retry_loop.simps reraise_def)

lemma total_supply_succeeds: "\<not> invocation_fails demo_config demo_contract ''totalSupply''"
  by (simp add: invocation_fails_def demo_contract_def demo_config_def retry_default_def
      retry_with_backoff_def retry_loop.simps)

theorem batch_call_view_functions_isolation_witness:
  "(1::nat) < length [''totalSupply'', ''owner'', ''symbol'']
   \<and> invocation_fails demo_config demo_contract ''owner''
   \<and> cr_status (snd (batch_call_view_functions demo_config demo_contract
                       [''totalSupply'', ''owner'', ''symbol'']) ! 1) = ''error''
   \<and> cr_status (snd (batch_call_view_functions demo_config demo_contract
                       [''totalSupply'', ''owner'', ''symbol'']) ! 0) = ''success''
   \<and> length (snd (batch_call_view_functions demo_config demo_contract
                       [''totalSupply'', ''owner'', ''symbol''])) = 3"
proof -
  let ?names = "[''totalSupply'', ''owner'', ''symbol'']"
  let ?batch = "snd (batch_call_view_functions demo_config demo_contract ?names)"
  note all = batch_call_view_functions_isolation[of demo_config demo_contract ?names]
  from all have len: "length ?batch = length ?names" by (rule conjunct1)
  from all have each: "\<forall>i<length ?names.
         ?batch ! i = snd (call_view_function demo_config demo_contract (?names ! i))
         \<and> cr_function_name (?batch ! i) = ?names ! i
         \<and> cr_status (?batch ! i)
             = (if invocation_fails demo_config demo_contract (?names ! i)
                then ''error'' else ''success'')"
    by (rule conjunct2[THEN conjunct1])
  have "(1::nat) < length ?names" by simp
  with each have "cr_status (?batch ! 1)
          = (if invocation_fails demo_config demo_contract (?names ! 1)
             then ''error'' else ''success'')"
    by blast
  then have one: "cr_status (?batch ! 1) = ''error''" using owner_fails by simp
  have "(0::nat) < length ?names" by simp
  with each have "cr_status (?batch ! 0)
          = (if invocation_fails demo_config demo_contract (?names ! 0)
             then ''error'' else ''success'')"
    by blast
  then have zero: "cr_status (?batch ! 0) = ''success''" using total_supply_succeeds by simp
  from len one zero owner_fails show ?thesis by simp
qed

subsection \<open>Status values of outcomes\<close>

lemma format_success_status:
  "format_success web3_to_checksum func_info result = Inr formatted \<Longrightarrow>
   fr_status formatted = ''success''"
  by (auto simp: format_success_def Let_def split: option.splits if_splits sum.splits)

lemma process_results_statuses:
  "process_results web3_to_checksum view_functions i call_results successful0 failed0
     = Inr (successful, failed) \<Longrightarrow>
   \<forall>s\<in>set successful0. fr_status s = ''success'' \<Longrightarrow>
   \<forall>f\<in>set failed0. fc_status f = ''failed'' \<Longrightarrow>
   (\<forall>s\<in>set successful. fr_status s = ''success'') \<and> (\<forall>f\<in>set failed. fc_status f = ''failed'')"
proof (induction call_results arbitrary: i successful0 failed0)
  case Nil
  then show ?case by simp
next
  case (Cons result call_results)
  show ?case
  proof (cases "cr_status result = ''success''")
    case True
    with Cons.prems(1) obtain formatted where
      f: "format_success web3_to_checksum (view_functions ! i) result = Inr formatted"
      and rest: "process_results web3_to_checksum view_functions (Suc i) call_results
                   (successful0 @ [formatted]) failed0 = Inr (successful, failed)"
      by (auto split: if_splits sum.splits)
    from f have "fr_status formatted = ''success''" by (rule format_success_status)
    with Cons.prems(2) have "\<forall>s\<in>set (successful0 @ [formatted]). fr_status s = ''success''"
      by simp
    from Cons.IH[OF rest this Cons.prems(3)] show ?thesis .
  next
    case False
    let ?entry = "\<lparr>fc_function_name = cr_function_name result,
                   fc_error = (case cr_error result of None \<Rightarrow> UnknownErrorDefault | Some m \<Rightarrow> m),
                   fc_status = ''failed''\<rparr>"
    from False Cons.prems(1) have rest:
      "process_results web3_to_checksum view_functions (Suc i) call_results successful0
         (failed0 @ [?entry]) = Inr (successful, failed)"
      by simp
    from Cons.prems(3) have "\<forall>f\<in>set (failed0 @ [?entry]). fc_status f = ''failed''" by simp
    from Cons.IH[OF rest Cons.prems(2) this] show ?thesis .
  qed
qed

lemma process_results_lengths:
  "process_results web3_to_checksum view_functions i call_results successful0 failed0
     = Inr (successful, failed) \<Longrightarrow>
   length successful + length failed
     = length successful0 + length failed0 + length call_results"
proof (induction call_results arbitrary: i successful0 failed0)
  case Nil
  then show ?case by simp
next
  case (Cons result call_results)
  show ?case
  proof (cases "cr_status result = ''success''")
    case True
    with Cons.prems obtain formatted where
      rest: "process_results web3_to_checksum view_functions (Suc i) call_results
                   (successful0 @ [formatted]) failed0 = Inr (successful, failed)"
      by (auto split: if_splits sum.splits)
    from Cons.IH[OF rest] show ?thesis by simp
  next
    case False
    with Cons.prems have rest:
      "process_results web3_to_checksum view_functions (Suc i) call_results successful0
         (failed0 @ [\<lparr>fc_function_name = cr_function_name result,
                   fc_error = (case cr_error result of None \<Rightarrow> UnknownErrorDefault | Some m \<Rightarrow> m),
                   fc_status = ''failed''\<rparr>]) = Inr (successful, failed)"
      by simp
    from Cons.IH[OF rest] show ?thesis by simp
  qed
qed

text \<open>
  C5 as the specification states it fails: the outcome of invoking a function that the
  contract does not have carries the status \<open>error\<close>, which is neither \<open>success\<close> nor
  \<open>failed\<close>.
\<close>

theorem call_view_function_status_error:
  "cr_status (snd (call_view_function demo_config demo_contract ''symbol'')) = ''error''
   \<and> cr_status (snd (call_view_function demo_config demo_contract ''symbol'')) \<noteq> ''success''
   \<and> cr_status (snd (call_view_function demo_config demo_contract ''symbol'')) \<noteq> ''failed''"
  by (simp add: call_view_function_def demo_contract_def)

text \<open>
  C5, amended.  Every outcome of \<open>call_view_function\<close> carries the status \<open>success\<close> or
  \<open>error\<close>, the latter on every failure path.  It is \<open>analyze_contract\<close> that relabels: every
  entry of the failed list it builds from a list of outcomes carries the status \<open>failed\<close>,
  and every entry of the successful list the status \<open>success\<close>.
\<close>

theorem call_view_function_status_values:
  "(cr_status (snd (call_view_function cfg contract function_name)) = ''success''
      \<or> cr_status (snd (call_view_function cfg contract function_name)) = ''error'')
   \<and> cr_status (call_error function_name e) = ''error''
   \<and> (process_results web3_to_checksum view_functions 0 call_results [] []
         = Inr (successful, failed) \<longrightarrow>
       (\<forall>s\<in>set successful. fr_status s = ''success'')
       \<and> (\<forall>f\<in>set failed. fc_status f = ''failed''))"
proof (intro conjI impI)
  show "cr_status (snd (call_view_function cfg contract function_name)) = ''success''
      \<or> cr_status (snd (call_view_function cfg contract function_name)) = ''error''"
    by (simp add: call_view_function_status)
  show "cr_status (call_error function_name e) = ''error''"
    by (simp add: call_error_def)
next
  assume run: "process_results web3_to_checksum view_functions 0 call_results [] []
         = Inr (successful, failed)"
  from process_results_statuses[OF run]
  show "\<forall>s\<in>set successful. fr_status s = ''success''"
    and "\<forall>f\<in>set failed. fc_status f = ''failed''"
    by simp_all
qed

lemma format_large_number_example:
  "format_large_number 1000000000000000000000 = Inr ''1000.000000 Ether''"
  by code_simp

lemma demo_batch:
  "snd (batch_call_view_functions demo_config demo_contract [''totalSupply'', ''owner''])
     = [\<lparr>cr_function_name = ''totalSupply'', cr_status = ''success'',
          cr_result = Some (PInt 1000000000000000000000), cr_error = None\<rparr>,
        \<lparr>cr_function_name = ''owner'', cr_status = ''error'', cr_result = None,
          cr_error = Some (ContractLogicErrorMsg ''execution reverted'')\<rparr>]"
  by (simp add: batch_results call_view_function_def demo_contract_def demo_config_def
      retry_default_def retry_with_backoff_def retry_loop.simps reraise_def call_error_def)

lemma demo_view_functions:
  "extract_view_functions demo_abi
     = [\<lparr>entry_type = Some ''function'', entry_name = Some ''totalSupply'',
          entry_stateMutability = Some ''view'', entry_inputs = Some [],
          entry_outputs = Some [\<lparr>param_type = Some ''uint256''\<rparr>]\<rparr>,
        \<lparr>entry_type = Some ''function'', entry_name = Some ''owner'',
          entry_stateMutability = Some ''view'', entry_inputs = Some [],
          entry_outputs = Some [\<lparr>param_type = Some ''address''\<rparr>]\<rparr>]"
  by (simp add: demo_abi_def get_list_def)

lemma demo_process_results:
  "process_results sample_checksum (extract_view_functions demo_abi) 0
     (snd (batch_call_view_functions demo_config demo_contract [''totalSupply'', ''owner'']))
     [] []
     = Inr ([\<lparr>fr_function_name = ''totalSupply'', fr_result = PInt 1000000000000000000000,
               fr_type = ''uint256'', fr_status = ''success'',
               fr_formatted_value = Some ''1000.000000 Ether'',
               fr_checksum_address = None\<rparr>],
            [\<lparr>fc_function_name = ''owner'',
               fc_error = ContractLogicErrorMsg ''execution reverted'',
               fc_status = ''failed''\<rparr>])"
  by (simp add: demo_batch demo_view_functions format_success_def get_output_type_def
      get_list_def is_int_def int_value_def format_large_number_example)

theorem call_view_function_status_values_witness:
  "\<exists>successful failed.
     process_results sample_checksum (extract_view_functions demo_abi) 0
       (snd (batch_call_view_functions demo_config demo_contract [''totalSupply'', ''owner'']))
       [] [] = Inr (successful, failed)
     \<and> successful \<noteq> [] \<and> failed \<noteq> []
     \<and> (\<forall>s\<in>set successful. fr_status s = ''success'')
     \<and> (\<forall>f\<in>set failed. fc_status f = ''failed'')"
proof -
  note inst = call_view_function_status_values
          [of demo_config demo_contract "''owner''" "Web3Exception ''timeout''"
              sample_checksum "extract_view_functions demo_abi"
              "snd (batch_call_view_functions demo_config demo_contract
                      [''totalSupply'', ''owner''])"]
  from inst[THEN conjunct2, THEN conjunct2, THEN mp, OF demo_process_results]
    demo_process_results
  show ?thesis by blast
qed

subsection \<open>Rate limiting of metadata requests\<close>

lemma tag_not_acquire: "tag oper ev \<noteq> ThrottleAcquire"
  by (cases ev) simp_all

text \<open>
  C3 as the specification states it fails: a request whose first attempt fails and whose
  second attempt answers makes two attempts and acquires one slot, before the first; no
  slot is acquired between the failure and the retry.
\<close>

theorem make_request_retry_without_slot:
  "fst (make_request demo_config flaky_world demo_params)
     = [ThrottleAcquire,
        Try (RequestsGet (demo_params\<lparr>param_apikey := Some ''KEY'', param_chainid := Some 1\<rparr>)) 0,
        Wait 1,
        Try (RequestsGet (demo_params\<lparr>param_apikey := Some ''KEY'', param_chainid := Some 1\<rparr>)) 1]"
  by (simp add: make_request_def flaky_world_def demo_world_def demo_config_def
      retry_default_def retry_with_backoff_def retry_loop.simps Let_def)

text \<open>
  C3, amended.  Every request made by \<open>_make_request\<close> acquires exactly one rate-limiter
  slot, and does so before its first attempt: the events of the request are the
  acquisition followed by the attempts and sleeps of the retry loop, none of which is an
  acquisition.
\<close>

theorem make_request_acquires_once:
  "(\<exists>evs. fst (make_request cfg w request_params) = ThrottleAcquire # evs
          \<and> ThrottleAcquire \<notin> set evs)
   \<and> length (filter (\<lambda>ev. ev = ThrottleAcquire) (fst (make_request cfg w request_params))) = 1"
proof -
  have "filter (\<lambda>ev. ev = ThrottleAcquire) (map (tag oper) evs) = []" for oper evs
    by (induction evs) (simp_all add: tag_not_acquire)
  moreover have "ThrottleAcquire \<notin> set (map (tag oper) evs)" for oper evs
    using tag_not_acquire by (metis (no_types) imageE list.set_map)
  ultimately show ?thesis
    by (simp add: make_request_def Let_def)
qed

subsection \<open>The gates of the analyzer\<close>

lemma is_probe_tag: "is_probe (tag IsConnected ev)"
  by (cases ev) (simp_all add: is_probe_def)

lemma initialize_probes: "\<forall>ev\<in>set (fst (initialize w st)). is_probe ev"
  by (auto simp: initialize_def verify_connection_def Let_def is_probe_tag split: sum.splits)

lemma initialize_done: "initialized st \<Longrightarrow> initialize w st = ([], st, True)"
  by (simp add: initialize_def)

text \<open>
  C2 as the specification states it fails: on a fresh analyzer whose node is unreachable,
  the input \<open>not-an-address\<close> makes four connectivity probes and is answered with the
  reason "initialisation failed", not with the invalid address format.
\<close>

theorem analyze_contract_initializes_first:
  "\<not> address_syntax ''not-an-address''
   \<and> analyze_contract demo_config offline_world fresh ''not-an-address''
       = ([Try IsConnected 0, Wait 1, Try IsConnected 1, Wait 2, Try IsConnected 2, Wait 4,
           Try IsConnected 3],
          fresh,
          Inr \<lparr>rep_status = ''error'', rep_error = Some AnalyzerInitFailed,
               rep_message = None, rep_contract_address = None, rep_contract_name = None,
               rep_total_functions = None, rep_analysis_summary = None,
               rep_successful_functions = None, rep_failed_functions = None,
               rep_timestamp = ''2025-01-01T00:00:00''\<rparr>)"
  by (simp add: address_syntax_def analyze_contract_def initialize_def verify_connection_def
      offline_world_def demo_world_def fresh_def error_report_def Let_def
      retry_default_def retry_with_backoff_def retry_loop.simps reraise_def)

text \<open>
  C2, amended.  For every input string that the address check rejects, \<open>analyze_contract\<close>
  runs the initialisation check first and nothing after it: its events are those of the
  initialisation check, all of them connectivity probes and the sleeps between them, and
  there are none once the analyzer is initialised.  The report has the status \<open>error\<close>;
  its reason names the invalid address format when the initialisation check passes, and
  the failed initialisation otherwise.
\<close>

theorem analyze_contract_invalid_address:
  assumes "\<not> is_valid_ethereum_address contract_address"
  shows "\<exists>rep. snd (snd (analyze_contract cfg w st contract_address)) = Inr rep
           \<and> rep_status rep = ''error''
           \<and> rep_error rep = Some (if snd (snd (initialize w st))
                                    then InvalidAddressFormat contract_address
                                    else AnalyzerInitFailed)
           \<and> fst (analyze_contract cfg w st contract_address) = fst (initialize w st)
           \<and> (\<forall>ev\<in>set (fst (analyze_contract cfg w st contract_address)). is_probe ev)
           \<and> (initialized st \<longrightarrow>
                fst (analyze_contract cfg w st contract_address) = []
                \<and> rep_error rep = Some (InvalidAddressFormat contract_address))"
proof -
  have events: "fst (analyze_contract cfg w st contract_address) = fst (initialize w st)"
    using assms by (simp add: analyze_contract_def Let_def)
  show ?thesis
  proof (cases "snd (snd (initialize w st))")
    case True
    with assms have "snd (snd (analyze_contract cfg w st contract_address))
        = Inr (error_report (InvalidAddressFormat contract_address) None (w_now w))"
      by (simp add: analyze_contract_def Let_def)
    with True events initialize_probes[of w st] show ?thesis
      by (simp add: error_report_def initialize_done)
  next
    case False
    then have "\<not> initialized st" by (auto simp: initialize_def)
    moreover from False have "snd (snd (analyze_contract cfg w st contract_address))
        = Inr (error_report AnalyzerInitFailed None (w_now w))"
      by (simp add: analyze_contract_def Let_def)
    ultimately show ?thesis
      using False events initialize_probes[of w st] by (simp add: error_report_def)
  qed
qed

lemma demo_initialize:
  "initialize demo_world fresh
     = ([Try IsConnected 0], \<lparr>initialized = True, connection_verified = True\<rparr>, True)"
  by (simp add: initialize_def verify_connection_def demo_world_def fresh_def Let_def
      retry_default_def retry_with_backoff_def retry_loop.simps)

lemma not_an_address: "\<not> is_valid_ethereum_address ''not-an-address''"
  by (simp add: is_valid_ethereum_address_def re_match_address_def)

theorem analyze_contract_invalid_address_witness:
  "\<not> is_valid_ethereum_address ''not-an-address''
   \<and> (\<exists>rep. snd (snd (analyze_contract demo_config demo_world fresh ''not-an-address''))
               = Inr rep
            \<and> rep_status rep = ''error''
            \<and> rep_error rep = Some (InvalidAddressFormat ''not-an-address''))
   \<and> fst (analyze_contract demo_config demo_world fresh ''not-an-address'')
       = [Try IsConnected 0]"
  using analyze_contract_invalid_address
          [OF not_an_address, of demo_config demo_world fresh]
        not_an_address
  by (auto simp: demo_initialize)

subsection \<open>Consistency of the success report\<close>

lemma function_names_of_length:
  "function_names_of view_functions = Inr names \<Longrightarrow> length names = length view_functions"
  by (induction view_functions arbitrary: names) (auto split: option.splits sum.splits)

text \<open>
  C10.  A report of \<open>analyze_contract\<close> with the status \<open>success\<close> has a summary and a list
  of successful functions; the total of view functions is the sum of the successful and
  the failed calls, the list of successful functions has as many entries as the summary
  counts, and the list of failed functions is \<open>None\<close> when no call failed and otherwise a
  non-empty list with as many entries as the summary counts.
\<close>

theorem analyze_contract_success_consistent:
  assumes "snd (snd (analyze_contract cfg w st contract_address)) = Inr rep"
    and "rep_status rep = ''success''"
  shows "\<exists>summary successful.
           rep_analysis_summary rep = Some summary
           \<and> rep_successful_functions rep = Some successful
           \<and> total_view_functions summary = successful_calls summary + failed_calls summary
           \<and> length successful = successful_calls summary
           \<and> (failed_calls summary = 0 \<longrightarrow> rep_failed_functions rep = None)
           \<and> (0 < failed_calls summary \<longrightarrow>
                (\<exists>failed. rep_failed_functions rep = Some failed \<and> failed \<noteq> []
                          \<and> length failed = failed_calls summary))"
  using assms
  by (auto simp: analyze_contract_def Let_def error_report_def batch_results
      split: if_splits option.splits sum.splits
      dest!: process_results_lengths function_names_of_length)

lemma demo_address_valid: "is_valid_ethereum_address demo_address"
  by (simp add: demo_address_def is_valid_ethereum_address_def re_match_address_def
      is_hex_char_def)

lemma demo_checksum:
  "to_checksum_address sample_checksum demo_address
     = ''0x5AAEB6053F3E94C9B9A09F33669435E7EF1BEAED''"
  "to_checksum_address sample_checksum ''0x5AAEB6053F3E94C9B9A09F33669435E7EF1BEAED''
     = ''0x5AAEB6053F3E94C9B9A09F33669435E7EF1BEAED''"
  by (simp_all add: to_checksum_address_def sample_checksum_def eip55_checksum_def checksum_case_def lower_hex_def Let_def demo_address_def
      address_syntax_def is_hex_char_def upper_hex_def)

lemma demo_is_contract:
  "snd (is_contract_address demo_config demo_world
          ''0x5AAEB6053F3E94C9B9A09F33669435E7EF1BEAED'')"
  by (simp add: is_contract_address_def Let_def demo_world_def demo_config_def demo_checksum
      retry_default_def retry_with_backoff_def retry_loop.simps)

lemma demo_get_contract_abi:
  "snd (get_contract_abi demo_config demo_world
          ''0x5AAEB6053F3E94C9B9A09F33669435E7EF1BEAED'') = Some demo_abi"
  by (simp add: get_contract_abi_def make_request_def safe_json_loads_def Let_def
      demo_world_def demo_config_def
      retry_default_def retry_with_backoff_def retry_loop.simps)

lemma demo_get_contract_instance:
  "snd (get_contract_instance demo_config demo_world
          ''0x5AAEB6053F3E94C9B9A09F33669435E7EF1BEAED'' demo_abi) = Some demo_contract"
  by (simp add: get_contract_instance_def Let_def demo_world_def demo_config_def demo_checksum
      retry_default_def retry_with_backoff_def retry_loop.simps)

lemma demo_get_contract_name:
  "snd (get_contract_name demo_config demo_world
          ''0x5AAEB6053F3E94C9B9A09F33669435E7EF1BEAED'') = Some ''Token''"
  by (simp add: get_contract_name_def get_contract_source_code_def make_request_def Let_def
      demo_world_def demo_config_def py_strip_def is_space_def
      retry_default_def retry_with_backoff_def retry_loop.simps)

lemma demo_function_names:
  "function_names_of (extract_view_functions demo_abi) = Inr [''totalSupply'', ''owner'']"
  by (simp add: demo_view_functions)

lemma demo_abi_nonempty: "demo_abi \<noteq> []" "w_to_checksum demo_world = sample_checksum"
  "w_now demo_world = ''2025-01-01T00:00:00''"
  by (simp_all add: demo_abi_def demo_world_def)

lemma demo_analysis:
  "snd (snd (analyze_contract demo_config demo_world fresh demo_address)) = Inr demo_report"
  by (simp add: analyze_contract_def Let_def demo_initialize demo_address_valid demo_abi_nonempty
      demo_checksum demo_is_contract demo_get_contract_abi get_list_def
      demo_get_contract_instance demo_function_names demo_batch demo_view_functions
      format_success_def get_output_type_def is_int_def int_value_def
      format_large_number_example demo_get_contract_name demo_report_def)

theorem analyze_contract_success_consistent_witness:
  "snd (snd (analyze_contract demo_config demo_world fresh demo_address)) = Inr demo_report
   \<and> rep_status demo_report = ''success''
   \<and> (\<exists>summary successful.
          rep_analysis_summary demo_report = Some summary
          \<and> rep_successful_functions demo_report = Some successful
          \<and> total_view_functions summary = successful_calls summary + failed_calls summary
          \<and> length successful = successful_calls summary
          \<and> (failed_calls summary = 0 \<longrightarrow> rep_failed_functions demo_report = None)
          \<and> (0 < failed_calls summary \<longrightarrow>
               (\<exists>failed. rep_failed_functions demo_report = Some failed \<and> failed \<noteq> []
                         \<and> length failed = failed_calls summary)))"
proof -
  have status: "rep_status demo_report = ''success''" by (simp add: demo_report_def)
  from demo_analysis status analyze_contract_success_consistent[OF demo_analysis status]
  show ?thesis by (intro conjI)
qed

subsection \<open>Scaled magnitudes of large unsigned integers\<close>

lemma bit_length_le: "n < 2 ^ k \<Longrightarrow> bit_length n \<le> k"
proof (induction k arbitrary: n)
  case 0
  then show ?case by (simp add: bit_length.simps)
next
  case (Suc k)
  show ?case
  proof (cases "n \<le> 0")
    case True
    then show ?thesis by (simp add: bit_length.simps)
  next
    case False
    from Suc.prems have "n div 2 < 2 ^ k" by simp
    from Suc.IH[OF this] False show ?thesis by (simp add: bit_length.simps[of n])
  qed
qed

lemma round_half_even_le:
  assumes "0 \<le> n" and "0 < d"
  shows "round_half_even n d \<le> n + 1"
proof -
  have "n div d \<le> n" using assms by (metis div_0 int_div_le_self leI nle_le)
  then show ?thesis by (simp add: round_half_even_def Let_def)
qed

lemma int_true_divide_fits:
  assumes "0 \<le> a" and "a < 2 ^ 256" and "0 < b"
  shows "\<exists>x. int_true_divide a b = Inr x"
proof -
  define d where "d = int (bit_length a) - int (bit_length b)"
  define fl where "fl = (if quotient_ge_pow2 a b d then d else d - 1)"
  define e where "e = max (fl - 52) (- 1074)"
  define m where "m = (if 0 \<le> e then round_half_even a (b * 2 ^ nat e)
                       else round_half_even (a * 2 ^ nat (- e)) b)"
  have "bit_length a \<le> 256" using assms(2) by (rule bit_length_le)
  then have "d \<le> 256" by (simp add: d_def)
  then have "fl \<le> 256" by (simp add: fl_def)
  then have e: "e \<le> 204" by (simp add: e_def)
  have small: "m * 2 ^ nat e < 2 ^ 1024" if pos: "0 \<le> e"
  proof -
    from pos have "m = round_half_even a (b * 2 ^ nat e)" by (simp add: m_def)
    moreover have "0 < b * 2 ^ nat e" using assms(3) by simp
    ultimately have "m \<le> a + 1" using round_half_even_le[OF assms(1)] by simp
    with assms(2) have m: "m \<le> 2 ^ 256" by simp
    from e pos have "nat e \<le> 204" by simp
    then have "(2::int) ^ nat e \<le> 2 ^ 204" by (rule power_increasing) simp
    with m have "m * 2 ^ nat e \<le> 2 ^ 256 * 2 ^ 204"
      by (intro mult_mono) simp_all
    also have "\<dots> < (2::int) ^ 1024" by simp
    finally show ?thesis .
  qed
  have "int_true_divide a b =
          (if 0 \<le> e \<and> 2 ^ 1024 \<le> m * 2 ^ nat e
           then Inl (OverflowError ''integer division result too large for a float'')
           else Inr (m, e))"
    using assms(3) by (simp add: int_true_divide_def Let_def d_def fl_def e_def m_def)
  with small show ?thesis by (cases "0 \<le> e") auto
qed

lemma bit_length_bound: "0 \<le> n \<Longrightarrow> n < 2 ^ bit_length n"
proof (induction n rule: bit_length.induct)
  case (1 n)
  show ?case
  proof (cases "n \<le> 0")
    case True
    with 1(2) show ?thesis by (simp add: bit_length.simps)
  next
    case False
    then have "0 \<le> n div 2" by simp
    from 1(1)[OF False this] have "n div 2 < 2 ^ bit_length (n div 2)" .
    then have "n < 2 * 2 ^ bit_length (n div 2)" by linarith
    with False show ?thesis by (simp add: bit_length.simps[of n])
  qed
qed

lemma round_half_even_exact: "0 < d \<Longrightarrow> round_half_even (x * d) d = x"
  by (simp add: round_half_even_def Let_def)

lemma int_true_divide_whole:
  assumes "0 \<le> k" and "k < 2 ^ 53" and "0 < b"
  shows "\<exists>e\<le>0. int_true_divide (k * b) b = Inr (k * 2 ^ nat (- e), e)"
proof -
  define d where "d = int (bit_length (k * b)) - int (bit_length b)"
  define fl where "fl = (if quotient_ge_pow2 (k * b) b d then d else d - 1)"
  define e where "e = max (fl - 52) (- 1074)"
  define m where "m = (if 0 \<le> e then round_half_even (k * b) (b * 2 ^ nat e)
                       else round_half_even (k * b * 2 ^ nat (- e)) b)"
  have "b < 2 ^ bit_length b" using assms(3) by (intro bit_length_bound) simp
  with assms have "k * b < 2 ^ 53 * 2 ^ bit_length b"
    by (intro mult_strict_mono) simp_all
  then have "k * b < 2 ^ (53 + bit_length b)" by (simp add: power_add)
  then have "bit_length (k * b) \<le> 53 + bit_length b" by (rule bit_length_le)
  then have d: "d \<le> 53" by (simp add: d_def)
  have "fl \<le> 52"
  proof (cases "d \<le> 52")
    case True
    then show ?thesis by (simp add: fl_def)
  next
    case False
    with d have d53: "d = 53" by simp
    have "\<not> b * 2 ^ 53 \<le> k * b"
    proof
      assume "b * 2 ^ 53 \<le> k * b"
      then have "2 ^ 53 * b \<le> k * b" by (simp add: mult.commute)
      with assms(3) have "2 ^ 53 \<le> k" by simp
      with assms(2) show False by simp
    qed
    then have "\<not> quotient_ge_pow2 (k * b) b d" by (simp add: quotient_ge_pow2_def d53)
    with d53 show ?thesis by (simp add: fl_def)
  qed
  then have e: "e \<le> 0" by (simp add: e_def)
  have m: "m = k * 2 ^ nat (- e)"
  proof (cases "0 \<le> e")
    case True
    with e have "e = 0" by simp
    then show ?thesis using assms(3) round_half_even_exact[of b k] by (simp add: m_def)
  next
    case False
    have c: "k * b * 2 ^ nat (- e) = (k * 2 ^ nat (- e)) * b"
      by (simp add: mult.commute mult.left_commute)
    have "round_half_even (k * b * 2 ^ nat (- e)) b = k * 2 ^ nat (- e)"
      unfolding c using assms(3) by (rule round_half_even_exact)
    with False show ?thesis by (simp add: m_def)
  qed
  have no: "\<not> (0 \<le> e \<and> 2 ^ 1024 \<le> m * 2 ^ nat e)"
  proof
    assume h: "0 \<le> e \<and> 2 ^ 1024 \<le> m * 2 ^ nat e"
    with e have "e = 0" by simp
    with h m have "2 ^ 1024 \<le> k" by simp
    with assms(2) show False by simp
  qed
  have "int_true_divide (k * b) b =
          (if 0 \<le> e \<and> 2 ^ 1024 \<le> m * 2 ^ nat e
           then Inl (OverflowError ''integer division result too large for a float'')
           else Inr (m, e))"
    using assms(3) by (simp add: int_true_divide_def Let_def d_def fl_def e_def m_def)
  with no m e show ?thesis by auto
qed

lemma format_6f_whole:
  assumes "0 \<le> k" and "e \<le> 0"
  shows "format_6f (k * 2 ^ nat (- e), e) = str_digits k @ ''.000000''"
proof -
  define n where "n = (if 0 \<le> e then k * 2 ^ nat (- e) * 2 ^ nat e * 10 ^ 6
               else round_half_even (k * 2 ^ nat (- e) * 10 ^ 6) (2 ^ nat (- e)))"
  have n: "n = k * 10 ^ 6"
  proof (cases "0 \<le> e")
    case True
    with assms(2) have "e = 0" by simp
    then show ?thesis by (simp add: n_def)
  next
    case False
    have c: "k * 2 ^ nat (- e) * 10 ^ 6 = (k * 10 ^ 6) * 2 ^ nat (- e)" by simp
    have "round_half_even (k * 2 ^ nat (- e) * 10 ^ 6) (2 ^ nat (- e)) = k * 10 ^ 6"
      unfolding c by (rule round_half_even_exact) simp
    with False show ?thesis by (simp only: n_def if_False)
  qed
  have "pad6 0 = ''000000''"
    by (simp add: pad6_def str_digits.simps[of 0] digit_char_def numeral_eq_Suc)
  moreover have "format_6f (k * 2 ^ nat (- e), e)
                   = str_digits (n div 10 ^ 6) @ ''.'' @ pad6 (n mod 10 ^ 6)"
    by (simp add: format_6f_def Let_def n_def)
  ultimately show ?thesis by (simp add: n)
qed

lemma scaled_whole:
  assumes "0 \<le> k" and "k < 2 ^ 53" and "0 < b"
  shows "scaled (k * b) b unit = Inr (str_digits k @ ''.000000 '' @ unit)"
proof -
  from int_true_divide_whole[OF assms] obtain e where
    "e \<le> 0" "int_true_divide (k * b) b = Inr (k * 2 ^ nat (- e), e)" by blast
  then show ?thesis by (simp add: scaled_def format_6f_whole[OF assms(1)])
qed

lemma format_large_number_whole:
  assumes "1 \<le> k" and "k < 2 ^ 53"
  shows "format_large_number (k * 10 ^ 18) = Inr (str_digits k @ ''.000000 Ether'')"
proof -
  from assms(1) have "(10::int) ^ 18 \<le> k * 10 ^ 18" by simp
  moreover have "scaled (k * 10 ^ 18) (10 ^ 18) ''Ether'' = Inr (str_digits k @ ''.000000 '' @ ''Ether'')"
    using assms by (intro scaled_whole) simp_all
  ultimately show ?thesis by (simp add: format_large_number_def)
qed

text \<open>Values in each tier; the quotient of the largest 256-bit value shows the rounding
  to a double, and a dividend beyond the range of doubles raises.\<close>

lemma format_large_number_examples:
  "format_large_number 1000000000000000001 = Inr ''1.000000 Ether''"
  "format_large_number 123456789012345678 = Inr ''123.456789 milli-Ether''"
  "format_large_number 1500000000000 = Inr ''1.500000 micro-Ether''"
  "format_large_number 999999999999 = Inr ''999999999999''"
  "format_large_number 1234567890123456789012345678 = Inr ''1234567890.123457 Ether''"
  "format_large_number (2 ^ 256 - 1)
     = Inr ''115792089237316203707617735395386539918674240093853421928448.000000 Ether''"
  "format_large_number (2 ^ 1024 * 10 ^ 18)
     = Inl (OverflowError ''integer division result too large for a float'')"
  by code_simp+

text \<open>Digit strings and the numbers they denote.\<close>

lemma digit_cases:
  assumes "0 \<le> d" and "d < 10"
  shows "d = 0 \<or> d = 1 \<or> d = 2 \<or> d = 3 \<or> d = 4 \<or> d = 5 \<or> d = 6 \<or> d = 7 \<or> d = 8 \<or> d = (9::int)"
  using assms by presburger

lemma digit_char_props:
  assumes "0 \<le> d" and "d < 10"
  shows "is_digit (digit_char d)" and "digit_value (digit_char d) = d"
    and "digit_char d = CHR ''0'' \<longleftrightarrow> d = 0"
  using digit_cases[OF assms]
  by (auto simp: digit_char_def is_digit_def digit_value_def)

lemma digits_value_snoc: "digits_value (s @ [c]) = 10 * digits_value s + digit_value c"
  by (simp add: digits_value_def)

lemma str_digits_nonempty: "str_digits n \<noteq> []"
  by (subst str_digits.simps) simp

lemma str_digits_props:
  "0 \<le> n \<Longrightarrow> list_all is_digit (str_digits n) \<and> digits_value (str_digits n) = n
     \<and> (n = 0 \<or> hd (str_digits n) \<noteq> CHR ''0'')"
proof (induction n rule: str_digits.induct)
  case (1 n)
  show ?case
  proof (cases "n < 10")
    case True
    with 1(2) digit_char_props[of n] show ?thesis
      by (simp add: str_digits.simps[of n] digits_value_def)
  next
    case False
    then have pos: "0 \<le> n div 10" "n div 10 \<noteq> 0" by simp_all
    from 1(1)[OF False pos(1)] pos(2)
    have ih: "list_all is_digit (str_digits (n div 10))"
      "digits_value (str_digits (n div 10)) = n div 10"
      "hd (str_digits (n div 10)) \<noteq> CHR ''0''" by simp_all
    have m: "0 \<le> n mod 10" "n mod 10 < 10" by simp_all
    from ih digit_char_props[OF m] False str_digits_nonempty[of "n div 10"]
    show ?thesis
      by (simp add: str_digits.simps[of n] digits_value_snoc)
  qed
qed

lemma length_str_digits: "0 \<le> n \<Longrightarrow> n < 10 ^ Suc j \<Longrightarrow> length (str_digits n) \<le> Suc j"
proof (induction j arbitrary: n)
  case 0
  then show ?case by (simp add: str_digits.simps[of n])
next
  case (Suc j)
  show ?case
  proof (cases "n < 10")
    case True
    then show ?thesis by (simp add: str_digits.simps[of n])
  next
    case False
    from Suc.prems have "0 \<le> n div 10" "n div 10 < 10 ^ Suc j" by simp_all
    from Suc.IH[OF this] False show ?thesis by (simp add: str_digits.simps[of n])
  qed
qed

lemma digits_value_zeros: "digits_value (replicate z (CHR ''0'') @ s) = digits_value s"
proof -
  have "foldl (\<lambda>acc c. 10 * acc + digit_value c) 0 (replicate z (CHR ''0'')) = 0"
    by (induction z) (simp_all add: digit_value_def)
  then show ?thesis by (simp add: digits_value_def)
qed

lemma pad6_props:
  assumes "0 \<le> k" and "k < 10 ^ 6"
  shows "length (pad6 k) = 6" and "list_all is_digit (pad6 k)" and "digits_value (pad6 k) = k"
proof -
  from assms have "k < 10 ^ Suc 5" by simp
  from length_str_digits[OF assms(1) this] show "length (pad6 k) = 6"
    by (simp add: pad6_def)
  from str_digits_props[OF assms(1)] have "list_all is_digit (str_digits k)" by simp
  moreover have "is_digit (CHR ''0'')" by (simp add: is_digit_def)
  ultimately show "list_all is_digit (pad6 k)"
    by (auto simp: pad6_def list_all_iff)
  from str_digits_props[OF assms(1)] show "digits_value (pad6 k) = k"
    by (simp add: pad6_def digits_value_zeros)
qed

lemma str_digits_whole_text: "0 \<le> n \<Longrightarrow> whole_text (str_digits n) \<and> digits_value (str_digits n) = n"
proof -
  assume n: "0 \<le> n"
  have zero: "str_digits 0 = ''0''" by (simp add: str_digits.simps[of 0] digit_char_def)
  from str_digits_props[OF n] zero str_digits_nonempty[of n] show ?thesis
    by (auto simp: whole_text_def)
qed

lemma str_int_integer_text: "integer_text (str_int v) v"
  using str_digits_whole_text[of v] str_digits_whole_text[of "- v"]
  by (simp add: integer_text_def str_int_def)

text \<open>Rounding to the nearest integer, and the exponent that the division chooses.\<close>

lemma round_half_even_nonneg: "0 \<le> n \<Longrightarrow> 0 < d \<Longrightarrow> 0 \<le> round_half_even n d"
  by (simp add: round_half_even_def Let_def pos_imp_zdiv_nonneg_iff)

lemma round_half_even_near:
  assumes "0 < d"
  shows "\<bar>real_of_int (round_half_even n d) - real_of_int n / real_of_int d\<bar> \<le> 1 / 2"
proof -
  define q where "q = n div d"
  define r where "r = n mod d"
  define x where "x = real_of_int r / real_of_int d"
  have n: "n = q * d + r" by (simp add: q_def r_def)
  have r: "0 \<le> r" "r < d" using assms by (simp_all add: r_def)
  have dpos: "0 < real_of_int d" using assms by simp
  have quot: "real_of_int n / real_of_int d = real_of_int q + x"
    using dpos by (simp add: n x_def field_simps)
  have x: "0 \<le> x" "x < 1" using r dpos by (simp_all add: x_def)
  consider "2 * r < d" | "d < 2 * r" | "2 * r = d" by linarith
  then show ?thesis
  proof cases
    case 1
    then have res: "round_half_even n d = q"
      by (simp add: round_half_even_def Let_def q_def r_def)
    from 1 have "2 * real_of_int r < real_of_int d" by linarith
    then have "x \<le> 1 / 2" using dpos by (simp add: x_def field_simps)
    with x show ?thesis unfolding res quot by simp
  next
    case 2
    then have res: "round_half_even n d = q + 1"
      by (simp add: round_half_even_def Let_def q_def r_def)
    from 2 have "real_of_int d < 2 * real_of_int r" by linarith
    then have "1 / 2 \<le> x" using dpos by (simp add: x_def field_simps)
    with x show ?thesis unfolding res quot by simp
  next
    case 3
    then have res: "round_half_even n d = q \<or> round_half_even n d = q + 1"
      by (simp add: round_half_even_def Let_def q_def r_def)
    from 3 have "2 * real_of_int r = real_of_int d" by linarith
    then have half: "x = 1 / 2" using dpos by (simp add: x_def field_simps)
    from res show ?thesis
    proof
      assume e: "round_half_even n d = q"
      show ?thesis unfolding e quot half by simp
    next
      assume e: "round_half_even n d = q + 1"
      show ?thesis unfolding e quot half by simp
    qed
  qed
qed

lemma bit_length_lower: "0 < n \<Longrightarrow> 2 ^ bit_length n \<le> 2 * n"
proof (induction n rule: bit_length.induct)
  case (1 n)
  from 1(2) have pos: "\<not> n \<le> 0" by simp
  show ?case
  proof (cases "n div 2 = 0")
    case True
    then have "bit_length (n div 2) = 0" by (simp add: bit_length.simps)
    with pos 1(2) show ?thesis by (simp add: bit_length.simps[of n])
  next
    case False
    with 1(2) have "0 < n div 2" by (simp add: pos_imp_zdiv_pos_iff) 
    from 1(1)[OF pos this] have "2 ^ bit_length (n div 2) \<le> 2 * (n div 2)" .
    also have "\<dots> \<le> n" by simp
    finally show ?thesis using pos by (simp add: bit_length.simps[of n])
  qed
qed

lemma floor_log2_bounds:
  assumes "0 < b" and "b \<le> a"
  defines "d \<equiv> int (bit_length a) - int (bit_length b)"
  defines "fl \<equiv> (if quotient_ge_pow2 a b d then d else d - 1)"
  shows "0 \<le> fl" and "b * 2 ^ nat fl \<le> a"
proof -
  have apos: "0 < a" using assms by simp
  have ua: "a < 2 ^ bit_length a" using apos by (intro bit_length_bound) simp
  have ub: "b < 2 ^ bit_length b" using assms(1) by (intro bit_length_bound) simp
  have la: "2 ^ bit_length a \<le> 2 * a" using apos by (rule bit_length_lower)
  have lb: "2 ^ bit_length b \<le> 2 * b" using assms(1) by (rule bit_length_lower)
  have mono: "bit_length b \<le> bit_length a"
  proof (rule ccontr)
    assume "\<not> bit_length b \<le> bit_length a"
    then have "Suc (bit_length a) \<le> bit_length b" by simp
    then have "(2::int) ^ Suc (bit_length a) \<le> 2 ^ bit_length b"
      by (rule power_increasing) simp
    with ua lb have "2 * a < 2 * b" by simp
    with assms(2) show False by simp
  qed
  then have d0: "0 \<le> d" by (simp add: d_def)
  have both: "0 \<le> fl \<and> b * 2 ^ nat fl \<le> a"
  proof (cases "quotient_ge_pow2 a b d")
    case True
    with d0 show ?thesis by (simp add: fl_def quotient_ge_pow2_def)
  next
    case False
    with d0 have no: "\<not> b * 2 ^ nat d \<le> a" by (simp add: quotient_ge_pow2_def)
    have "d \<noteq> 0" using no assms(2) by auto
    with d0 have d1: "1 \<le> d" by simp
    from d1 mono have split: "bit_length a = bit_length b + Suc (nat (d - 1))"
      by (simp add: d_def)
    have "2 * (b * 2 ^ nat (d - 1)) = b * 2 ^ Suc (nat (d - 1))" by simp
    also have "\<dots> \<le> 2 ^ bit_length b * 2 ^ Suc (nat (d - 1))"
      using ub by (intro mult_right_mono) simp_all
    also have "\<dots> = 2 ^ bit_length a" by (simp only: split power_add)
    also have "\<dots> \<le> 2 * a" by (rule la)
    finally have "b * 2 ^ nat (d - 1) \<le> a" by simp
    with False d1 show ?thesis by (simp add: fl_def)
  qed
  then show "0 \<le> fl" and "b * 2 ^ nat fl \<le> a" by simp_all
qed

text \<open>The double that the division returns is within a \<open>2 ^ 53\<close>-th of the quotient, and
  the text with six decimals is within half a unit of the sixth decimal of the double.\<close>

lemma int_true_divide_near:
  assumes "0 < b" and "b \<le> a" and "a < 2 ^ 256"
  shows "\<exists>m e. int_true_divide a b = Inr (m, e) \<and> 0 \<le> m
           \<and> \<bar>double_value (m, e) - real_of_int a / real_of_int b\<bar>
               \<le> (real_of_int a / real_of_int b) / 2 ^ 53"
proof -
  define d where "d = int (bit_length a) - int (bit_length b)"
  define fl where "fl = (if quotient_ge_pow2 a b d then d else d - 1)"
  define e where "e = max (fl - 52) (- 1074)"
  define m where "m = (if 0 \<le> e then round_half_even a (b * 2 ^ nat e)
                       else round_half_even (a * 2 ^ nat (- e)) b)"
  define quot where "quot = real_of_int a / real_of_int b"
  have apos: "0 \<le> a" using assms by simp
  have bpos: "0 < real_of_int b" using assms(1) by simp
  have fl0: "0 \<le> fl"
    unfolding fl_def d_def using assms(1,2) by (rule floor_log2_bounds(1))
  have low: "b * 2 ^ nat fl \<le> a"
    unfolding fl_def d_def using assms(1,2) by (rule floor_log2_bounds(2))
  from fl0 have e: "e = fl - 52" by (simp add: e_def)
  have "real_of_int (b * 2 ^ nat fl) \<le> real_of_int a" using low by (simp only: of_int_le_iff)
  then have pow: "2 ^ nat fl \<le> quot"
    using bpos by (simp add: quot_def field_simps)
  have "bit_length a \<le> 256" using assms(3) by (rule bit_length_le)
  then have "d \<le> 256" by (simp add: d_def)
  then have "fl \<le> 256" by (simp add: fl_def)
  then have e204: "e \<le> 204" by (simp add: e)
  have small: "m * 2 ^ nat e < 2 ^ 1024" if pos: "0 \<le> e"
  proof -
    from pos have "m = round_half_even a (b * 2 ^ nat e)" by (simp add: m_def)
    moreover have "0 < b * 2 ^ nat e" using assms(1) by simp
    ultimately have "m \<le> a + 1" using round_half_even_le[OF apos] by simp
    with assms(3) have m: "m \<le> 2 ^ 256" by simp
    from e204 pos have "nat e \<le> 204" by simp
    then have "(2::int) ^ nat e \<le> 2 ^ 204" by (rule power_increasing) simp
    with m have "m * 2 ^ nat e \<le> 2 ^ 256 * 2 ^ 204"
      by (intro mult_mono) simp_all
    also have "\<dots> < (2::int) ^ 1024" by simp
    finally show ?thesis .
  qed
  have unfolded: "int_true_divide a b =
          (if 0 \<le> e \<and> 2 ^ 1024 \<le> m * 2 ^ nat e
           then Inl (OverflowError ''integer division result too large for a float'')
           else Inr (m, e))"
    using assms(1) by (simp add: int_true_divide_def Let_def d_def fl_def e_def m_def)
  with small have res: "int_true_divide a b = Inr (m, e)" by (cases "0 \<le> e") auto
  have m0: "0 \<le> m"
    using apos assms(1) by (simp add: m_def round_half_even_nonneg)
  have near: "\<bar>double_value (m, e) - quot\<bar> \<le> quot / 2 ^ 53"
  proof (cases "0 \<le> e")
    case True
    define s :: real where "s = 2 ^ nat e"
    have spos: "0 < s" by (simp add: s_def)
    have flsplit: "nat fl = nat e + 52" using True e by simp
    have m: "m = round_half_even a (b * 2 ^ nat e)" using True by (simp add: m_def)
    have "0 < b * 2 ^ nat e" using assms(1) by simp
    from round_half_even_near[OF this, of a]
    have "\<bar>real_of_int m - real_of_int a / (real_of_int b * s)\<bar> \<le> 1 / 2"
      by (simp add: m s_def)
    moreover have "real_of_int a / (real_of_int b * s) = quot / s"
      by (simp add: quot_def)
    ultimately have "\<bar>real_of_int m - quot / s\<bar> \<le> 1 / 2" by simp
    then have "\<bar>real_of_int m - quot / s\<bar> * s \<le> 1 / 2 * s"
      using spos by (intro mult_right_mono) simp_all
    moreover have "\<bar>real_of_int m - quot / s\<bar> * s = \<bar>real_of_int m * s - quot\<bar>"
    proof -
      have "\<bar>real_of_int m - quot / s\<bar> * s = \<bar>(real_of_int m - quot / s) * s\<bar>"
        using spos by (simp add: abs_mult)
      also have "(real_of_int m - quot / s) * s = real_of_int m * s - quot"
        using spos by (simp add: field_simps)
      finally show ?thesis .
    qed
    ultimately have err: "\<bar>real_of_int m * s - quot\<bar> \<le> s / 2" by simp
    have "s * 2 ^ 52 = 2 ^ nat fl" by (simp add: s_def flsplit power_add)
    with pow have "s * 2 ^ 52 \<le> quot" by simp
    then have "s / 2 \<le> quot / 2 ^ 53" by simp
    with err have "\<bar>real_of_int m * s - quot\<bar> \<le> quot / 2 ^ 53" by linarith
    with True show ?thesis by (simp add: double_value_def s_def)
  next
    case False
    define s :: real where "s = 2 ^ nat (- e)"
    have spos: "0 < s" by (simp add: s_def)
    have split: "nat fl + nat (- e) = 52" using False e fl0 by simp
    have m: "m = round_half_even (a * 2 ^ nat (- e)) b" using False by (simp add: m_def)
    from round_half_even_near[OF assms(1), of "a * 2 ^ nat (- e)"]
    have "\<bar>real_of_int m - real_of_int a * s / real_of_int b\<bar> \<le> 1 / 2"
      by (simp add: m s_def)
    moreover have "real_of_int a * s / real_of_int b = quot * s"
      by (simp add: quot_def)
    ultimately have "\<bar>real_of_int m - quot * s\<bar> \<le> 1 / 2" by simp
    then have "\<bar>real_of_int m - quot * s\<bar> / s \<le> 1 / 2 / s"
      using spos by (intro divide_right_mono) simp_all
    moreover have "\<bar>real_of_int m - quot * s\<bar> / s = \<bar>real_of_int m / s - quot\<bar>"
    proof -
      have "\<bar>real_of_int m - quot * s\<bar> / s = \<bar>(real_of_int m - quot * s) / s\<bar>"
        using spos by simp
      also have "(real_of_int m - quot * s) / s = real_of_int m / s - quot"
        using spos by (simp add: field_simps)
      finally show ?thesis .
    qed
    ultimately have err: "\<bar>real_of_int m / s - quot\<bar> \<le> 1 / 2 / s" by simp
    have "(2::real) ^ nat fl * s = 2 ^ 52"
      unfolding s_def power_add[symmetric] split ..
    then have "2 ^ nat fl = 2 ^ 52 / s" using spos by (simp add: field_simps)
    with pow have "2 ^ 52 / s \<le> quot" by simp
    then have "1 / 2 / s \<le> quot / 2 ^ 53" using spos by (simp add: field_simps)
    with err have "\<bar>real_of_int m / s - quot\<bar> \<le> quot / 2 ^ 53" by linarith
    with False show ?thesis by (simp add: double_value_def s_def)
  qed
  from res m0 near show ?thesis unfolding quot_def by blast
qed

lemma div_mod_real_k:
  "real_of_int (n div k) * real_of_int k + real_of_int (n mod k) = real_of_int n"
proof -
  have "real_of_int ((n div k) * k + n mod k) = real_of_int n" by simp
  then show ?thesis by (simp only: of_int_add of_int_mult)
qed

lemma div_mod_real:
  "real_of_int (n div 10 ^ 6) + real_of_int (n mod 10 ^ 6) / 10 ^ 6 = real_of_int n / 10 ^ 6"
proof -
  have "real_of_int (n div 10 ^ 6) * 10 ^ 6 + real_of_int (n mod 10 ^ 6) = real_of_int n"
    using div_mod_real_k[of n "10 ^ 6"] by simp
  then have "(real_of_int (n div 10 ^ 6) * 10 ^ 6 + real_of_int (n mod 10 ^ 6)) / 10 ^ 6
               = real_of_int n / 10 ^ 6" by (rule arg_cong)
  then show ?thesis by (simp add: add_divide_distrib)
qed

lemma format_6f_near:
  assumes "0 \<le> m"
  shows "\<exists>whole decimals. format_6f (m, e) = whole @ ''.'' @ decimals
           \<and> decimal_text whole decimals
           \<and> \<bar>decimal_number whole decimals - double_value (m, e)\<bar> \<le> 1 / (2 * 10 ^ 6)"
proof -
  define n where "n = (if 0 \<le> e then m * 2 ^ nat e * 10 ^ 6
               else round_half_even (m * 10 ^ 6) (2 ^ nat (- e)))"
  have n0: "0 \<le> n" using assms by (simp add: n_def round_half_even_nonneg)
  have layout: "format_6f (m, e) = str_digits (n div 10 ^ 6) @ ''.'' @ pad6 (n mod 10 ^ 6)"
    by (simp add: format_6f_def Let_def n_def)
  have w0: "0 \<le> n div 10 ^ 6" using n0 by (simp add: pos_imp_zdiv_nonneg_iff)
  have f0: "0 \<le> n mod 10 ^ 6" "n mod 10 ^ 6 < 10 ^ 6" by simp_all
  from str_digits_whole_text[OF w0]
  have whole: "whole_text (str_digits (n div 10 ^ 6))"
    "digits_value (str_digits (n div 10 ^ 6)) = n div 10 ^ 6" by simp_all
  have shape: "decimal_text (str_digits (n div 10 ^ 6)) (pad6 (n mod 10 ^ 6))"
    using whole(1) pad6_props[OF f0] by (simp add: decimal_text_def)
  have number: "decimal_number (str_digits (n div 10 ^ 6)) (pad6 (n mod 10 ^ 6))
                  = real_of_int n / 10 ^ 6"
    unfolding decimal_number_def whole(2) pad6_props(3)[OF f0] by (rule div_mod_real)
  have near: "\<bar>real_of_int n / 10 ^ 6 - double_value (m, e)\<bar> \<le> 1 / (2 * 10 ^ 6)"
  proof (cases "0 \<le> e")
    case True
    then show ?thesis by (simp add: n_def double_value_def)
  next
    case False
    define s :: real where "s = 2 ^ nat (- e)"
    have "(0::int) < 2 ^ nat (- e)" by simp
    from round_half_even_near[OF this, of "m * 10 ^ 6"] False
    have "\<bar>real_of_int n - real_of_int m * 10 ^ 6 / s\<bar> \<le> 1 / 2"
      by (simp add: n_def s_def)
    then have "\<bar>real_of_int n - real_of_int m * 10 ^ 6 / s\<bar> / 10 ^ 6 \<le> 1 / 2 / 10 ^ 6"
      by (intro divide_right_mono) simp_all
    moreover have "\<bar>real_of_int n - real_of_int m * 10 ^ 6 / s\<bar> / 10 ^ 6
                     = \<bar>real_of_int n / 10 ^ 6 - real_of_int m / s\<bar>"
    proof -
      have "\<bar>real_of_int n - real_of_int m * 10 ^ 6 / s\<bar> / 10 ^ 6
              = \<bar>(real_of_int n - real_of_int m * 10 ^ 6 / s) / 10 ^ 6\<bar>" by simp
      also have "(real_of_int n - real_of_int m * 10 ^ 6 / s) / 10 ^ 6
                   = real_of_int n / 10 ^ 6 - real_of_int m / s"
        by (simp add: field_simps)
      finally show ?thesis .
    qed
    ultimately show ?thesis using False by (simp add: double_value_def s_def)
  qed
  from layout shape number near show ?thesis by metis
qed

lemma scaled_near:
  assumes "0 < b" and "b \<le> v" and "v < 2 ^ 256"
  shows "\<exists>whole decimals. scaled v b unit = Inr (whole @ ''.'' @ decimals @ '' '' @ unit)
           \<and> decimal_text whole decimals
           \<and> \<bar>decimal_number whole decimals - real_of_int v / real_of_int b\<bar>
               \<le> 1 / (2 * 10 ^ 6) + (real_of_int v / real_of_int b) / 2 ^ 53"
proof -
  from int_true_divide_near[OF assms] obtain m e where
    res: "int_true_divide v b = Inr (m, e)" and m0: "0 \<le> m"
    and near: "\<bar>double_value (m, e) - real_of_int v / real_of_int b\<bar>
               \<le> (real_of_int v / real_of_int b) / 2 ^ 53" by blast
  from format_6f_near[OF m0, of e] obtain whole decimals where
    layout: "format_6f (m, e) = whole @ ''.'' @ decimals"
    and shape: "decimal_text whole decimals"
    and shown: "\<bar>decimal_number whole decimals - double_value (m, e)\<bar> \<le> 1 / (2 * 10 ^ 6)"
    by blast
  from near shown
  have "\<bar>decimal_number whole decimals - real_of_int v / real_of_int b\<bar>
               \<le> 1 / (2 * 10 ^ 6) + (real_of_int v / real_of_int b) / 2 ^ 53"
    by linarith
  moreover from res layout
  have "scaled v b unit = Inr (whole @ ''.'' @ decimals @ '' '' @ unit)"
    by (simp add: scaled_def)
  ultimately show ?thesis using shape by blast
qed

lemma format_large_number_beyond_doubles:
  "format_large_number 9007199254740993000000000000000000
     = Inr ''9007199254740992.000000 Ether''"
  by code_simp

text \<open>
  C7 as the specification states it fails: the quotient is computed in double precision,
  so the text is not always the quotient to six decimals.  The unsigned 256-bit value
  \<open>9007199254740993 * 10 ^ 18\<close>, a whole number of units, is shown as
  \<open>9007199254740992.000000 Ether\<close>.
\<close>

theorem format_success_uint_not_exact:
  "take 4 (get_output_type (demo_abi ! 0)) = ''uint''
   \<and> (9007199254740993000000000000000000::int) < 2 ^ 256
   \<and> (9007199254740993000000000000000000::int) = 9007199254740993 * 10 ^ 18
   \<and> format_success sample_checksum (demo_abi ! 0)
         \<lparr>cr_function_name = ''totalSupply'', cr_status = ''success'',
          cr_result = Some (PInt 9007199254740993000000000000000000), cr_error = None\<rparr>
       = Inr \<lparr>fr_function_name = ''totalSupply'',
              fr_result = PInt 9007199254740993000000000000000000,
              fr_type = ''uint256'', fr_status = ''success'',
              fr_formatted_value = Some ''9007199254740992.000000 Ether'',
              fr_checksum_address = None\<rparr>"
  by (simp add: demo_abi_def get_output_type_def get_list_def format_success_def is_int_def
      int_value_def format_large_number_beyond_doubles)

text \<open>
  C7, amended.  For a successful call whose output type begins with \<open>uint\<close> and whose value
  is an integer \<open>v\<close> below \<open>2 ^ 256\<close>: when \<open>v\<close> exceeds \<open>10 ^ 15\<close> the entry carries a
  formatted value, a decimal numeral with exactly six digits after the point followed by
  the suffix \<open>Ether\<close> when \<open>v \<ge> 10 ^ 18\<close> and \<open>milli-Ether\<close> otherwise; the number written
  differs from the quotient \<open>v / 10 ^ 18\<close> (respectively \<open>v / 10 ^ 15\<close>) by at most half a
  unit of the sixth decimal plus the rounding of the quotient to a double, a \<open>2 ^ 53\<close>-th
  of the quotient.  When \<open>v\<close> does not exceed \<open>10 ^ 15\<close> the entry carries none.
  \<open>_format_large_number\<close> itself also has the tier \<open>micro-Ether\<close> from \<open>10 ^ 12\<close>, with the
  same accuracy, and gives the plain decimal numeral of \<open>v\<close> below \<open>10 ^ 12\<close>.  The value
  \<open>1000000000000000000000\<close> is shown as \<open>1000.000000 Ether\<close>, and every whole number \<open>k\<close>
  of units below \<open>2 ^ 53\<close> is shown exactly, as the numeral of \<open>k\<close> followed by
  \<open>.000000 Ether\<close>.
\<close>

theorem format_success_uint_scaled:
  assumes "take 4 (get_output_type func_info) = ''uint''"
    and "cr_result result = Some (PInt v)"
    and "v < 2 ^ 256"
  shows "(10 ^ 18 \<le> v \<longrightarrow>
            (\<exists>formatted whole decimals.
               format_success web3_to_checksum func_info result = Inr formatted
               \<and> fr_formatted_value formatted = Some (whole @ ''.'' @ decimals @ '' Ether'')
               \<and> decimal_text whole decimals
               \<and> \<bar>decimal_number whole decimals - real_of_int v / 10 ^ 18\<bar>
                   \<le> 1 / (2 * 10 ^ 6) + (real_of_int v / 10 ^ 18) / 2 ^ 53))
         \<and> (10 ^ 15 < v \<and> v < 10 ^ 18 \<longrightarrow>
            (\<exists>formatted whole decimals.
               format_success web3_to_checksum func_info result = Inr formatted
               \<and> fr_formatted_value formatted
                   = Some (whole @ ''.'' @ decimals @ '' milli-Ether'')
               \<and> decimal_text whole decimals
               \<and> \<bar>decimal_number whole decimals - real_of_int v / 10 ^ 15\<bar>
                   \<le> 1 / (2 * 10 ^ 6) + (real_of_int v / 10 ^ 15) / 2 ^ 53))
         \<and> (v \<le> 10 ^ 15 \<longrightarrow>
            (\<exists>formatted. format_success web3_to_checksum func_info result = Inr formatted
               \<and> fr_formatted_value formatted = None))
         \<and> (10 ^ 12 \<le> v \<and> v < 10 ^ 15 \<longrightarrow>
            (\<exists>whole decimals.
               format_large_number v = Inr (whole @ ''.'' @ decimals @ '' micro-Ether'')
               \<and> decimal_text whole decimals
               \<and> \<bar>decimal_number whole decimals - real_of_int v / 10 ^ 12\<bar>
                   \<le> 1 / (2 * 10 ^ 6) + (real_of_int v / 10 ^ 12) / 2 ^ 53))
         \<and> (v < 10 ^ 12 \<longrightarrow>
            (\<exists>shown. format_large_number v = Inr shown \<and> integer_text shown v))
         \<and> format_large_number 1000000000000000000000 = Inr ''1000.000000 Ether''
         \<and> (\<forall>k. 1 \<le> k \<and> k < 2 ^ 53 \<longrightarrow>
               (\<exists>whole. format_large_number (k * 10 ^ 18) = Inr (whole @ ''.000000 Ether'')
                  \<and> whole_text whole \<and> digits_value whole = k))"
proof (intro conjI impI allI)
  assume big: "10 ^ 18 \<le> v"
  from scaled_near[of "10 ^ 18" v "''Ether''"] big assms(3)
  obtain whole decimals where
    s: "scaled v (10 ^ 18) ''Ether'' = Inr (whole @ ''.'' @ decimals @ '' Ether'')"
    and t: "decimal_text whole decimals"
    and n: "\<bar>decimal_number whole decimals - real_of_int v / 10 ^ 18\<bar>
              \<le> 1 / (2 * 10 ^ 6) + (real_of_int v / 10 ^ 18) / 2 ^ 53"
    by auto
  from big have "(10::int) ^ 15 < v" by simp
  with big s assms(1,2)
  have "\<exists>formatted. format_success web3_to_checksum func_info result = Inr formatted
          \<and> fr_formatted_value formatted = Some (whole @ ''.'' @ decimals @ '' Ether'')"
    by (simp add: format_success_def Let_def is_int_def int_value_def format_large_number_def)
  with t n
  show "\<exists>formatted whole decimals.
               format_success web3_to_checksum func_info result = Inr formatted
               \<and> fr_formatted_value formatted = Some (whole @ ''.'' @ decimals @ '' Ether'')
               \<and> decimal_text whole decimals
               \<and> \<bar>decimal_number whole decimals - real_of_int v / 10 ^ 18\<bar>
                   \<le> 1 / (2 * 10 ^ 6) + (real_of_int v / 10 ^ 18) / 2 ^ 53"
    by blast
next
  assume mid: "10 ^ 15 < v \<and> v < 10 ^ 18"
  from scaled_near[of "10 ^ 15" v "''milli-Ether''"] mid assms(3)
  obtain whole decimals where
    s: "scaled v (10 ^ 15) ''milli-Ether'' = Inr (whole @ ''.'' @ decimals @ '' milli-Ether'')"
    and t: "decimal_text whole decimals"
    and n: "\<bar>decimal_number whole decimals - real_of_int v / 10 ^ 15\<bar>
              \<le> 1 / (2 * 10 ^ 6) + (real_of_int v / 10 ^ 15) / 2 ^ 53"
    by auto
  from mid s assms(1,2)
  have "\<exists>formatted. format_success web3_to_checksum func_info result = Inr formatted
          \<and> fr_formatted_value formatted = Some (whole @ ''.'' @ decimals @ '' milli-Ether'')"
    by (simp add: format_success_def Let_def is_int_def int_value_def format_large_number_def)
  with t n
  show "\<exists>formatted whole decimals.
               format_success web3_to_checksum func_info result = Inr formatted
               \<and> fr_formatted_value formatted
                   = Some (whole @ ''.'' @ decimals @ '' milli-Ether'')
               \<and> decimal_text whole decimals
               \<and> \<bar>decimal_number whole decimals - real_of_int v / 10 ^ 15\<bar>
                   \<le> 1 / (2 * 10 ^ 6) + (real_of_int v / 10 ^ 15) / 2 ^ 53"
    by blast
next
  assume "v \<le> 10 ^ 15"
  with assms(1,2)
  show "\<exists>formatted. format_success web3_to_checksum func_info result = Inr formatted
               \<and> fr_formatted_value formatted = None"
    by (simp add: format_success_def Let_def is_int_def int_value_def)
next
  assume low: "10 ^ 12 \<le> v \<and> v < 10 ^ 15"
  from scaled_near[of "10 ^ 12" v "''micro-Ether''"] low assms(3)
  obtain whole decimals where
    s: "scaled v (10 ^ 12) ''micro-Ether'' = Inr (whole @ ''.'' @ decimals @ '' micro-Ether'')"
    and t: "decimal_text whole decimals"
    and n: "\<bar>decimal_number whole decimals - real_of_int v / 10 ^ 12\<bar>
              \<le> 1 / (2 * 10 ^ 6) + (real_of_int v / 10 ^ 12) / 2 ^ 53"
    by auto
  from low s have "format_large_number v = Inr (whole @ ''.'' @ decimals @ '' micro-Ether'')"
    by (simp add: format_large_number_def)
  with t n
  show "\<exists>whole decimals.
               format_large_number v = Inr (whole @ ''.'' @ decimals @ '' micro-Ether'')
               \<and> decimal_text whole decimals
               \<and> \<bar>decimal_number whole decimals - real_of_int v / 10 ^ 12\<bar>
                   \<le> 1 / (2 * 10 ^ 6) + (real_of_int v / 10 ^ 12) / 2 ^ 53"
    by blast
next
  assume "v < 10 ^ 12"
  then have "format_large_number v = Inr (str_int v)"
    by (simp add: format_large_number_def)
  with str_int_integer_text[of v]
  show "\<exists>shown. format_large_number v = Inr shown \<and> integer_text shown v" by blast
next
  show "format_large_number 1000000000000000000000 = Inr ''1000.000000 Ether''"
    by (rule format_large_number_example)
next
  fix k :: int
  assume k: "1 \<le> k \<and> k < 2 ^ 53"
  then have "format_large_number (k * 10 ^ 18) = Inr (str_digits k @ ''.000000 Ether'')"
    by (intro format_large_number_whole) simp_all
  moreover from k have "whole_text (str_digits k) \<and> digits_value (str_digits k) = k"
    by (intro str_digits_whole_text) simp
  ultimately
  show "\<exists>whole. format_large_number (k * 10 ^ 18) = Inr (whole @ ''.000000 Ether'')
                  \<and> whole_text whole \<and> digits_value whole = k"
    by blast
qed

theorem format_success_uint_scaled_witness:
  "take 4 (get_output_type (demo_abi ! 0)) = ''uint''
   \<and> cr_result \<lparr>cr_function_name = ''totalSupply'', cr_status = ''success'',
                 cr_result = Some (PInt 1234567890123456789), cr_error = None\<rparr>
       = Some (PInt 1234567890123456789)
   \<and> (1234567890123456789::int) < 2 ^ 256
   \<and> (10::int) ^ 18 \<le> 1234567890123456789
   \<and> (\<exists>formatted whole decimals.
         format_success sample_checksum (demo_abi ! 0)
           \<lparr>cr_function_name = ''totalSupply'', cr_status = ''success'',
            cr_result = Some (PInt 1234567890123456789), cr_error = None\<rparr> = Inr formatted
         \<and> fr_formatted_value formatted = Some (whole @ ''.'' @ decimals @ '' Ether'')
         \<and> decimal_text whole decimals
         \<and> \<bar>decimal_number whole decimals - real_of_int 1234567890123456789 / 10 ^ 18\<bar>
             \<le> 1 / (2 * 10 ^ 6) + (real_of_int 1234567890123456789 / 10 ^ 18) / 2 ^ 53)
   \<and> format_large_number 1234567890123456789 = Inr ''1.234568 Ether''"
proof -
  let ?result = "\<lparr>cr_function_name = ''totalSupply'', cr_status = ''success'',
                  cr_result = Some (PInt 1234567890123456789), cr_error = None\<rparr>"
  have ty: "take 4 (get_output_type (demo_abi ! 0)) = ''uint''"
    by (simp add: demo_abi_def get_output_type_def get_list_def)
  have res: "cr_result ?result = Some (PInt 1234567890123456789)" by simp
  have bound: "(1234567890123456789::int) < 2 ^ 256" by simp
  have big: "(10::int) ^ 18 \<le> 1234567890123456789" by simp
  have shown: "format_large_number 1234567890123456789 = Inr ''1.234568 Ether''"
    by code_simp
  note inst = format_success_uint_scaled[OF ty res bound, of sample_checksum]
  from inst[THEN conjunct1, THEN mp, OF big] ty res bound big shown
  show ?thesis by (intro conjI)
qed

end
